theory Spec2Isabelle
  imports Complex_Main
begin

section \<open>Numbers and errors\<close>

text \<open>
  The program computes with Python floats. Finite floats are modelled by \<^typ>\<open>real\<close>
  with exact arithmetic, except where a result is rounded to an integer: there the
  rounding of every floating-point operation is part of the model (see
  \<open>rounds_to_nearest\<close> below). Overflow and underflow are not part of the model. A
  value that may be missing (\<^verbatim>\<open>None\<close>, or a NaN cell of a data frame, which
  \<^verbatim>\<open>pd.isna\<close> treats alike) is an \<^typ>\<open>'a option\<close>. Where a function is
  asked about non-finite input, the argument is a \<open>pyfloat\<close>, which adds the two
  infinities and NaN to the finite values; the results for them follow IEEE 754.
\<close>

datatype pyfloat = Fin real | PInf | NInf | NaN

datatype py_error = ZeroDivisionError

text \<open>
  A binary64 operation returns the exact result rounded to the nearest float, which
  differs from the exact result by at most the fraction \<open>2\<^sup>-\<^sup>5\<^sup>3\<close> of it. A function
  \<open>fl\<close> with this property stands for the rounding; the functions whose results
  depend on it take it as their first argument.
\<close>

definition rounds_to_nearest :: "(real \<Rightarrow> real) \<Rightarrow> bool" where
  "rounds_to_nearest fl \<longleftrightarrow> (\<forall>y. \<bar>fl y - y\<bar> \<le> \<bar>y\<bar> / 2 ^ 53)"

section \<open>Odds helpers of \<^verbatim>\<open>src/model/core.py\<close>\<close>

text \<open>
  \<^verbatim>\<open>american_to_prob(odds)\<close>: \<^verbatim>\<open>None\<close> for a missing or NaN argument and for
  \<^verbatim>\<open>odds == 0\<close>; otherwise \<^verbatim>\<open>100.0 / (odds + 100.0)\<close> when \<^verbatim>\<open>odds > 0\<close> and
  \<^verbatim>\<open>(-1.0 * odds) / ((-1.0 * odds) + 100.0)\<close> in the \<^verbatim>\<open>else\<close> branch.
  For \<^verbatim>\<open>+inf\<close> the first branch gives \<^verbatim>\<open>100.0 / inf = 0.0\<close>; for \<^verbatim>\<open>-inf\<close> the
  second gives \<^verbatim>\<open>inf / inf = nan\<close>. Neither divisor can be zero.
\<close>

fun american_to_prob :: "pyfloat option \<Rightarrow> pyfloat option" where
  "american_to_prob None = None"
| "american_to_prob (Some NaN) = None"
| "american_to_prob (Some PInf) = Some (Fin 0)"
| "american_to_prob (Some NInf) = Some NaN"
| "american_to_prob (Some (Fin odds)) =
     (if odds = 0 then None
      else if odds > 0 then Some (Fin (100 / (odds + 100)))
      else Some (Fin ((-1 * odds) / ((-1 * odds) + 100))))"

text \<open>
  The same function with the rounding of its two operations written out
  (\<^verbatim>\<open>-1.0 * odds\<close> is exact). Python raises \<^verbatim>\<open>ZeroDivisionError\<close> on a zero divisor.
\<close>

fun american_to_prob_fl :: "(real \<Rightarrow> real) \<Rightarrow> pyfloat option \<Rightarrow> py_error + pyfloat option" where
  "american_to_prob_fl fl None = Inr None"
| "american_to_prob_fl fl (Some NaN) = Inr None"
| "american_to_prob_fl fl (Some PInf) = Inr (Some (Fin 0))"
| "american_to_prob_fl fl (Some NInf) = Inr (Some NaN)"
| "american_to_prob_fl fl (Some (Fin odds)) =
     (if odds = 0 then Inr None
      else if odds > 0 then
        (let s = fl (odds + 100)
         in if s = 0 then Inl ZeroDivisionError else Inr (Some (Fin (fl (100 / s)))))
      else
        (let a = -1 * odds; s = fl (a + 100)
         in if s = 0 then Inl ZeroDivisionError else Inr (Some (Fin (fl (a / s))))))"

text \<open>
  Python's one-argument \<^verbatim>\<open>round\<close> returns the nearest integer and rounds a tie to
  the even neighbour.
\<close>

definition py_round :: "real \<Rightarrow> int" where
  "py_round x =
     (let f = \<lfloor>x\<rfloor>; d = x - of_int f
      in if d < 1/2 then f else if 1/2 < d then f + 1 else if even f then f else f + 1)"

text \<open>
  \<^verbatim>\<open>prob_to_american(p)\<close> of \<^verbatim>\<open>src/model/core.py\<close>: \<^verbatim>\<open>None\<close> for a missing or NaN
  argument and for \<^verbatim>\<open>p <= 0\<close> or \<^verbatim>\<open>p >= 1\<close> (which the infinities satisfy);
  otherwise the rounded favourite price \<^verbatim>\<open>int(round(-100 * dec))\<close> with
  \<^verbatim>\<open>dec = p / (1 - p)\<close> when \<^verbatim>\<open>p >= 0.5\<close>, and the rounded underdog price
  \<^verbatim>\<open>int(round(100 * dec))\<close> with \<^verbatim>\<open>dec = (1 - p) / p\<close> otherwise. The subtraction,
  the division and the multiplication are each rounded before \<^verbatim>\<open>round\<close> sees the
  product.
\<close>

fun prob_to_american :: "(real \<Rightarrow> real) \<Rightarrow> pyfloat option \<Rightarrow> py_error + int option" where
  "prob_to_american fl None = Inr None"
| "prob_to_american fl (Some NaN) = Inr None"
| "prob_to_american fl (Some PInf) = Inr None"
| "prob_to_american fl (Some NInf) = Inr None"
| "prob_to_american fl (Some (Fin p)) =
     (if p \<le> 0 \<or> p \<ge> 1 then Inr None
      else if p \<ge> 1/2 then
        (let q = fl (1 - p)
         in if q = 0 then Inl ZeroDivisionError
            else (let dec = fl (p / q) in Inr (Some (py_round (fl (-100 * dec))))))
      else (let dec = fl (fl (1 - p) / p) in Inr (Some (py_round (fl (100 * dec))))))"

section \<open>Odds helpers of \<^verbatim>\<open>model/io.py\<close>\<close>

text \<open>
  \<^verbatim>\<open>american_to_decimal(odds)\<close> is \<^verbatim>\<open>1 + (100/abs(odds)) if odds < 0 else 1 + (odds/100)\<close>.
  A NaN compares false, so it takes the \<^verbatim>\<open>else\<close> branch and stays NaN;
  \<^verbatim>\<open>-inf\<close> gives \<^verbatim>\<open>1 + 100/inf = 1.0\<close> and \<^verbatim>\<open>+inf\<close> gives \<^verbatim>\<open>inf\<close>.
\<close>

fun american_to_decimal :: "pyfloat \<Rightarrow> pyfloat" where
  "american_to_decimal (Fin odds) =
     Fin (if odds < 0 then 1 + (100 / \<bar>odds\<bar>) else 1 + (odds / 100))"
| "american_to_decimal PInf = PInf"
| "american_to_decimal NInf = Fin 1"
| "american_to_decimal NaN = NaN"

text \<open>
  \<^verbatim>\<open>american_to_implied(odds)\<close> is \<^verbatim>\<open>1.0 / american_to_decimal(odds)\<close>. Python raises
  \<^verbatim>\<open>ZeroDivisionError\<close> on a zero divisor, so that branch is part of the model
  (lemma \<open>american_to_implied_no_error\<close> shows it is never taken).
\<close>

fun american_to_implied :: "pyfloat \<Rightarrow> py_error + pyfloat" where
  "american_to_implied odds =
     (case american_to_decimal odds of
        Fin d \<Rightarrow> if d = 0 then Inl ZeroDivisionError else Inr (Fin (1 / d))
      | PInf \<Rightarrow> Inr (Fin 0)
      | NInf \<Rightarrow> Inr (Fin 0)
      | NaN \<Rightarrow> Inr NaN)"

text \<open>
  The two converters with the rounding of each operation written out (\<^verbatim>\<open>abs\<close> is
  exact).
\<close>

fun american_to_decimal_fl :: "(real \<Rightarrow> real) \<Rightarrow> pyfloat \<Rightarrow> pyfloat" where
  "american_to_decimal_fl fl (Fin odds) =
     Fin (if odds < 0 then fl (1 + fl (100 / \<bar>odds\<bar>)) else fl (1 + fl (odds / 100)))"
| "american_to_decimal_fl fl PInf = PInf"
| "american_to_decimal_fl fl NInf = Fin 1"
| "american_to_decimal_fl fl NaN = NaN"

fun american_to_implied_fl :: "(real \<Rightarrow> real) \<Rightarrow> pyfloat \<Rightarrow> py_error + pyfloat" where
  "american_to_implied_fl fl odds =
     (case american_to_decimal_fl fl odds of
        Fin d \<Rightarrow> if d = 0 then Inl ZeroDivisionError else Inr (Fin (fl (1 / d)))
      | PInf \<Rightarrow> Inr (Fin 0)
      | NInf \<Rightarrow> Inr (Fin 0)
      | NaN \<Rightarrow> Inr NaN)"

text \<open>
  \<^verbatim>\<open>prob_to_american(p)\<close> of \<^verbatim>\<open>model/io.py\<close>, on a finite probability: clamp to
  \<^verbatim>\<open>[1e-6, 1 - 1e-6]\<close> by \<^verbatim>\<open>min(max(p, 1e-6), 1-1e-6)\<close>, then round the favourite
  price when \<^verbatim>\<open>p >= 0.5\<close> and the underdog price otherwise. The literal \<^verbatim>\<open>1e-6\<close> is
  the float nearest to \<open>10\<^sup>-\<^sup>6\<close>, and every operation is rounded.
\<close>

definition prob_to_american_io :: "(real \<Rightarrow> real) \<Rightarrow> real \<Rightarrow> py_error + int" where
  "prob_to_american_io fl p0 =
     (let p = min (max p0 (fl (1/1000000))) (fl (1 - fl (1/1000000)))
      in if p \<ge> 1/2 then
           (let q = fl (1 - p)
            in if q = 0 then Inl ZeroDivisionError
               else Inr (py_round (fl (-100 * fl (p / q)))))
         else if p = 0 then Inl ZeroDivisionError
         else Inr (py_round (fl (100 * fl (fl (1 - p) / p)))))"

text \<open>
  \<^verbatim>\<open>devig_two_way(p_over, p_under)\<close>: the pair \<^verbatim>\<open>(None, None)\<close> when the sum is not
  positive, the two shares otherwise.
\<close>

definition devig_two_way :: "real \<Rightarrow> real \<Rightarrow> real option \<times> real option" where
  "devig_two_way p_over p_under =
     (let s = p_over + p_under
      in if s \<le> 0 then (None, None) else (Some (p_over / s), Some (p_under / s)))"

section \<open>Strings\<close>

text \<open>
  Strings are ASCII byte lists. \<^verbatim>\<open>str.upper\<close> and \<^verbatim>\<open>str.lower\<close> change the 26
  letters and nothing else; \<^verbatim>\<open>pat in s\<close> is the substring test.
\<close>

definition upper_char :: "char \<Rightarrow> char" where
  "upper_char c =
     (case map_of (zip ''abcdefghijklmnopqrstuvwxyz'' ''ABCDEFGHIJKLMNOPQRSTUVWXYZ'') c of
        Some u \<Rightarrow> u
      | None \<Rightarrow> c)"

definition lower_char :: "char \<Rightarrow> char" where
  "lower_char c =
     (case map_of (zip ''ABCDEFGHIJKLMNOPQRSTUVWXYZ'' ''abcdefghijklmnopqrstuvwxyz'') c of
        Some l \<Rightarrow> l
      | None \<Rightarrow> c)"

definition upper :: "string \<Rightarrow> string" where
  "upper s = map upper_char s"

definition lower :: "string \<Rightarrow> string" where
  "lower s = map lower_char s"

fun startswith :: "string \<Rightarrow> string \<Rightarrow> bool" where
  "startswith s [] = True"
| "startswith [] (p # ps) = False"
| "startswith (c # cs) (p # ps) = (c = p \<and> startswith cs ps)"

fun contains :: "string \<Rightarrow> string \<Rightarrow> bool" where
  "contains pat [] = (pat = [])"
| "contains pat (c # cs) = (startswith (c # cs) pat \<or> contains pat cs)"

section \<open>Kelly sizing: \<^verbatim>\<open>model/kelly.py\<close> and its cap in \<^verbatim>\<open>eval_yardage\<close>\<close>

text \<open>
  \<^verbatim>\<open>kelly_fraction(p, american_odds)\<close>: \<^verbatim>\<open>b = american_odds/100.0\<close> for a positive
  price and \<^verbatim>\<open>b = 100.0/abs(american_odds)\<close> otherwise, which raises at price 0;
  then \<^verbatim>\<open>q = 1.0 - p\<close>, \<^verbatim>\<open>f = (b*p - q) / b\<close> and the result \<^verbatim>\<open>max(0.0, f)\<close>.
\<close>

definition kelly_fraction :: "real \<Rightarrow> real \<Rightarrow> py_error + real" where
  "kelly_fraction p american_odds =
     (case (if american_odds > 0 then Inr (american_odds / 100)
            else if \<bar>american_odds\<bar> = 0 then Inl ZeroDivisionError
            else Inr (100 / \<bar>american_odds\<bar>)) of
        Inl e \<Rightarrow> Inl e
      | Inr b \<Rightarrow>
          (let q = 1 - p
           in if b = 0 then Inl ZeroDivisionError
              else (let f = (b * p - q) / b in Inr (max 0 f))))"

record risk =
  kelly_cap_straight :: real
  kelly_cap_alt :: real
  edge_green :: real
  edge_amber :: real

text \<open>
  In \<^verbatim>\<open>eval_yardage\<close> the ceiling is \<^verbatim>\<open>kelly_cap_alt\<close> when the text \<^verbatim>\<open>alt\<close> occurs in
  the printed column index of the frame and \<^verbatim>\<open>kelly_cap_straight\<close> otherwise, and the
  stake is \<^verbatim>\<open>min(kelly, kcap)\<close>.
\<close>

definition kcap :: "risk \<Rightarrow> string \<Rightarrow> real" where
  "kcap rk columns_str =
     (if contains ''alt'' columns_str then kelly_cap_alt rk else kelly_cap_straight rk)"

definition kelly_capped :: "real \<Rightarrow> real \<Rightarrow> real \<Rightarrow> py_error + real" where
  "kelly_capped cap p american_odds =
     (case kelly_fraction p american_odds of
        Inl e \<Rightarrow> Inl e
      | Inr kelly \<Rightarrow> Inr (min kelly cap))"

text \<open>
  The sizing rule in the specification's words: the decimal profit multiplier of a
  price, and the fraction \<open>min(cap, max(0, (b\<cdot>p - (1 - p)) / b))\<close>.
\<close>

definition profit_multiplier :: "real \<Rightarrow> real" where
  "profit_multiplier price = (if price > 0 then price / 100 else 100 / \<bar>price\<bar>)"

definition spec_kelly :: "real \<Rightarrow> real \<Rightarrow> real \<Rightarrow> real" where
  "spec_kelly cap p price =
     (let b = profit_multiplier price in min cap (max 0 ((b * p - (1 - p)) / b)))"

section \<open>Normal pricing: \<^verbatim>\<open>model/markets.py\<close> and \<^verbatim>\<open>run\<close> of \<^verbatim>\<open>src/model/core.py\<close>\<close>

text \<open>
  \<^verbatim>\<open>scipy.stats.norm.cdf\<close> is library code: the standard normal distribution function
  is a parameter \<open>norm_cdf\<close> of the model. With a location and a scale the library
  evaluates it at \<^verbatim>\<open>(x - loc) / scale\<close>, for a positive scale.
\<close>

definition norm_cdf_loc_scale :: "(real \<Rightarrow> real) \<Rightarrow> real \<Rightarrow> real \<Rightarrow> real \<Rightarrow> real" where
  "norm_cdf_loc_scale norm_cdf x loc scale = norm_cdf ((x - loc) / scale)"

text \<open>
  \<^verbatim>\<open>yardage_probs(mean, sd, line)\<close>: \<^verbatim>\<open>z = (line - mean) / max(sd, 1e-6)\<close>,
  \<^verbatim>\<open>p_under = norm.cdf(z)\<close>, \<^verbatim>\<open>p_over = 1.0 - p_under\<close>.
\<close>

definition yardage_probs :: "(real \<Rightarrow> real) \<Rightarrow> real \<Rightarrow> real \<Rightarrow> real \<Rightarrow> real \<times> real" where
  "yardage_probs norm_cdf mean sd line =
     (let z = (line - mean) / max sd (1/1000000);
          p_under = norm_cdf z;
          p_over = 1 - p_under
      in (p_over, p_under))"

text \<open>
  Step 4 of \<^verbatim>\<open>run\<close>: \<^verbatim>\<open>model_sd\<close> is clipped below at \<^verbatim>\<open>1e-6\<close>, then
  \<^verbatim>\<open>p_over = 1.0 - norm.cdf(line, loc=model_mean, scale=model_sd)\<close> and
  \<^verbatim>\<open>p_under = 1.0 - p_over\<close>.
\<close>

definition run_probs :: "(real \<Rightarrow> real) \<Rightarrow> real \<Rightarrow> real \<Rightarrow> real \<Rightarrow> real \<times> real" where
  "run_probs norm_cdf model_mean model_sd0 line =
     (let model_sd = max model_sd0 (1/1000000);
          p_over = 1 - norm_cdf_loc_scale norm_cdf line model_mean model_sd;
          p_under = 1 - p_over
      in (p_over, p_under))"

section \<open>Adjustment pipeline: \<^verbatim>\<open>model/markets.py\<close> and \<^verbatim>\<open>model/features.py\<close>\<close>

record volatility =
  wind_threshold_mph :: real
  wind_sd_widen :: real
  cold_threshold_f :: real
  cold_sd_widen :: real
  widen_sd_if_pressure_top10 :: real
  widen_sd_if_qb_lowtier :: real

text \<open>
  \<^verbatim>\<open>weather_penalty(temp_f, wind_mph, cfg)\<close>. A reading that is \<^verbatim>\<open>None\<close> or NaN is
  \<open>None\<close> here: the first fails the \<^verbatim>\<open>is not None\<close> test and the second every
  comparison.
\<close>

definition weather_penalty :: "real option \<Rightarrow> real option \<Rightarrow> volatility \<Rightarrow> real" where
  "weather_penalty temp_f wind_mph vol =
     (let wth = wind_threshold_mph vol;
          widen = 1;
          widen = (if (case wind_mph of None \<Rightarrow> False | Some w \<Rightarrow> w \<ge> wth)
                   then widen * (1 + wind_sd_widen vol) else widen);
          widen = (if (case temp_f of None \<Rightarrow> False | Some t \<Rightarrow> t \<le> cold_threshold_f vol)
                   then widen * (1 + cold_sd_widen vol) else widen)
      in widen)"

definition widen_for_pressure :: "bool \<Rightarrow> real \<Rightarrow> volatility \<Rightarrow> real" where
  "widen_for_pressure is_top10_pressure sd vol =
     sd * (1 + (if is_top10_pressure then widen_sd_if_pressure_top10 vol else 0))"

definition widen_for_low_qb :: "bool \<Rightarrow> real \<Rightarrow> volatility \<Rightarrow> real" where
  "widen_for_low_qb low_tier_qb sd vol =
     sd * (1 + (if low_tier_qb then widen_sd_if_qb_lowtier vol else 0))"

text \<open>
  The feed modifiers: three dictionaries from upper-case team names to multipliers
  and two sets of upper-case names.
\<close>

record feed_mods =
  pace :: "string \<rightharpoonup> real"
  proe :: "string \<rightharpoonup> real"
  off_epa :: "string \<rightharpoonup> real"
  top10_pressure :: "string set"
  low_tier_qb :: "string set"

text \<open>
  A row as \<^verbatim>\<open>attach_context\<close> hands it to \<^verbatim>\<open>adjusted_mu_sd\<close>. \<open>r_mean\<close> and \<open>r_sd\<close>
  are \<open>None\<close> for a NaN cell. The columns read with \<^verbatim>\<open>row.get(key, default)\<close> are
  \<open>None\<close> when the row has no such column; \<^verbatim>\<open>attach_context\<close> fills every missing
  \<^verbatim>\<open>snap_adj\<close> and \<^verbatim>\<open>share_adj\<close> with 1.0, so a cell of these two columns is a
  number, while a weather cell may itself be NaN (the inner \<open>None\<close>). The three names
  are the cells after \<^verbatim>\<open>str(...)\<close>.
\<close>

record ctx_row =
  r_mean :: "real option"
  r_sd :: "real option"
  r_team :: string
  r_player :: string
  r_market :: string
  r_snap_adj :: "real option"
  r_share_adj :: "real option"
  r_temp_f :: "real option option"
  r_wind_mph :: "real option option"
  r_opp :: "string option"

text \<open>\<^verbatim>\<open>d.get(key, default)\<close> on a dictionary and \<^verbatim>\<open>row.get(key, default)\<close> on a row.\<close>

definition dict_get :: "('k \<rightharpoonup> 'v) \<Rightarrow> 'k \<Rightarrow> 'v \<Rightarrow> 'v" where
  "dict_get d k dflt = (case d k of None \<Rightarrow> dflt | Some v \<Rightarrow> v)"

definition row_get :: "'v option \<Rightarrow> 'v \<Rightarrow> 'v" where
  "row_get cell dflt = (case cell of None \<Rightarrow> dflt | Some v \<Rightarrow> v)"

text \<open>
  \<^verbatim>\<open>adjusted_mu_sd(row, mods, cfg)\<close>: the pair \<^verbatim>\<open>(None, None)\<close> when the mean or the
  standard deviation is missing; otherwise the mean times the team factor and the two
  usage factors, and the standard deviation widened for weather, for pressure and for
  the quarterback tier, in this order.
\<close>

definition adjusted_mu_sd :: "ctx_row \<Rightarrow> feed_mods \<Rightarrow> volatility \<Rightarrow> real option \<times> real option" where
  "adjusted_mu_sd row mods vol =
     (case (r_mean row, r_sd row) of
        (Some mu, Some sd) \<Rightarrow>
          (let t = upper (r_team row);
               team_factor = 1;
               team_factor = team_factor * dict_get (pace mods) t 1;
               team_factor = team_factor * dict_get (proe mods) t 1;
               team_factor = team_factor * dict_get (off_epa mods) t 1;
               mu = mu * (team_factor * row_get (r_snap_adj row) 1 * row_get (r_share_adj row) 1);
               wx_widen = weather_penalty (row_get (r_temp_f row) (Some 55))
                            (row_get (r_wind_mph row) (Some 0)) vol;
               sd = sd * wx_widen;
               opp = upper (row_get (r_opp row) []);
               sd = widen_for_pressure (opp \<in> top10_pressure mods) sd vol;
               low_qb = (if contains ''passing'' (lower (r_market row))
                         then upper (r_player row) \<in> low_tier_qb mods else False);
               sd = widen_for_low_qb low_qb sd vol
           in (Some mu, Some sd))
      | _ \<Rightarrow> (None, None))"

text \<open>
  The pipeline in the specification's words. The three team multipliers and the two
  usage factors, each 1 when unknown; the wind and temperature readings of the game
  (0 mph and 55 degrees when the row carries no weather column, no reading when the
  cell is empty); the two flags; and the adjusted mean and standard deviation as
  products in the order of the specification.
\<close>

definition pace_multiplier :: "ctx_row \<Rightarrow> feed_mods \<Rightarrow> real" where
  "pace_multiplier row mods = dict_get (pace mods) (upper (r_team row)) 1"

definition play_rate_multiplier :: "ctx_row \<Rightarrow> feed_mods \<Rightarrow> real" where
  "play_rate_multiplier row mods = dict_get (proe mods) (upper (r_team row)) 1"

definition efficiency_multiplier :: "ctx_row \<Rightarrow> feed_mods \<Rightarrow> real" where
  "efficiency_multiplier row mods = dict_get (off_epa mods) (upper (r_team row)) 1"

definition snap_adjustment :: "ctx_row \<Rightarrow> real" where
  "snap_adjustment row = row_get (r_snap_adj row) 1"

definition target_share_adjustment :: "ctx_row \<Rightarrow> real" where
  "target_share_adjustment row = row_get (r_share_adj row) 1"

definition wind_at_least :: "ctx_row \<Rightarrow> real \<Rightarrow> bool" where
  "wind_at_least row threshold =
     (case row_get (r_wind_mph row) (Some 0) of None \<Rightarrow> False | Some w \<Rightarrow> threshold \<le> w)"

definition temperature_at_most :: "ctx_row \<Rightarrow> real \<Rightarrow> bool" where
  "temperature_at_most row threshold =
     (case row_get (r_temp_f row) (Some 55) of None \<Rightarrow> False | Some t \<Rightarrow> t \<le> threshold)"

definition opponent_top_tier_pass_rush :: "ctx_row \<Rightarrow> feed_mods \<Rightarrow> bool" where
  "opponent_top_tier_pass_rush row mods = (upper (row_get (r_opp row) []) \<in> top10_pressure mods)"

definition passing_market :: "ctx_row \<Rightarrow> bool" where
  "passing_market row = contains ''passing'' (lower (r_market row))"

definition player_low_tier :: "ctx_row \<Rightarrow> feed_mods \<Rightarrow> bool" where
  "player_low_tier row mods = (upper (r_player row) \<in> low_tier_qb mods)"

definition spec_adjusted_mean :: "real \<Rightarrow> ctx_row \<Rightarrow> feed_mods \<Rightarrow> real" where
  "spec_adjusted_mean mu row mods =
     mu * pace_multiplier row mods * play_rate_multiplier row mods *
       efficiency_multiplier row mods * snap_adjustment row * target_share_adjustment row"

definition spec_adjusted_sd :: "real \<Rightarrow> ctx_row \<Rightarrow> feed_mods \<Rightarrow> volatility \<Rightarrow> real" where
  "spec_adjusted_sd sd row mods vol =
     sd * (if wind_at_least row (wind_threshold_mph vol) then 1 + wind_sd_widen vol else 1)
        * (if temperature_at_most row (cold_threshold_f vol) then 1 + cold_sd_widen vol else 1)
        * (if opponent_top_tier_pass_rush row mods then 1 + widen_sd_if_pressure_top10 vol else 1)
        * (if passing_market row \<and> player_low_tier row mods
           then 1 + widen_sd_if_qb_lowtier vol else 1)"

section \<open>Parlays: \<^verbatim>\<open>model/parlays.py\<close>\<close>

text \<open>
  A row of the priced frame, with the columns \<^verbatim>\<open>build_parlays\<close> reads. \<open>edge_pct\<close> is
  \<open>None\<close> for a NaN cell. The line and the book price only appear in the text of the
  legs and are kept in their printed form.
\<close>

record pred_row =
  p_player :: string
  p_market :: string
  p_side :: string
  p_line :: string
  p_book_odds_american :: string
  edge_pct :: "real option"
  side_prob :: real
  decimal_odds :: real

record bucket_cfg =
  b_name :: string
  min_edge_pct :: real
  max_legs :: int

record parlays_cfg =
  correlation_penalty :: real
  buckets :: "bucket_cfg list"

record parlay_row =
  bucket :: string
  legs :: string
  parlay_prob :: real
  decimal_odds :: real
  ev_per_unit :: real

text \<open>
  \<^verbatim>\<open>df.head(n)\<close>: the first \<open>n\<close> rows, and for a negative \<open>n\<close> all rows but the
  last \<open>-n\<close>.
\<close>

definition df_head :: "int \<Rightarrow> 'a list \<Rightarrow> 'a list" where
  "df_head n df = (if 0 \<le> n then take (nat n) df else take (length df - nat (- n)) df)"

text \<open>\<^verbatim>\<open>Series.clip(lower, upper)\<close> on one value.\<close>

definition clip :: "real \<Rightarrow> real \<Rightarrow> real \<Rightarrow> real" where
  "clip lo hi x = min (max x lo) hi"

text \<open>\<^verbatim>\<open>sep.join(parts)\<close>.\<close>

fun join :: "string \<Rightarrow> string list \<Rightarrow> string" where
  "join sep [] = []"
| "join sep [x] = x"
| "join sep (x # y # ys) = x @ sep @ join sep (y # ys)"

text \<open>
  The threshold of a bucket: \<^verbatim>\<open>100*b["min_edge_pct"] if b["min_edge_pct"]<1 else b["min_edge_pct"]\<close>.
\<close>

definition min_edge :: "bucket_cfg \<Rightarrow> real" where
  "min_edge b = (if min_edge_pct b < 1 then 100 * min_edge_pct b else min_edge_pct b)"

text \<open>
  The mask \<^verbatim>\<open>pred_df["edge_pct"] >= min_edge\<close> is false on a NaN cell.
\<close>

definition edge_at_least :: "real \<Rightarrow> pred_row \<Rightarrow> bool" where
  "edge_at_least threshold r = (case edge_pct r of None \<Rightarrow> False | Some e \<Rightarrow> threshold \<le> e)"

text \<open>
  \<^verbatim>\<open>sort_values("edge_pct", ascending=False)\<close> is modelled as the stable sort by
  falling edge; the library leaves the order of rows with equal edges open for large
  frames. Only rows that passed the mask are sorted, so the key of a row without
  an edge is never used.
\<close>

definition sort_values_desc :: "pred_row list \<Rightarrow> pred_row list" where
  "sort_values_desc df = sort_key (\<lambda>r. case edge_pct r of None \<Rightarrow> 0 | Some e \<Rightarrow> - e) df"

definition pool :: "pred_row list \<Rightarrow> bucket_cfg \<Rightarrow> pred_row list" where
  "pool pred_df b = df_head 40 (sort_values_desc (filter (edge_at_least (min_edge b)) pred_df))"

definition chosen_legs :: "pred_row list \<Rightarrow> bucket_cfg \<Rightarrow> pred_row list" where
  "chosen_legs pred_df b = df_head (max_legs b) (pool pred_df b)"

definition leg_text :: "pred_row \<Rightarrow> string" where
  "leg_text r =
     p_player r @ '' '' @ p_market r @ '' '' @ p_side r @ '' '' @ p_line r @
       '' ('' @ p_book_odds_american r @ '')''"

text \<open>One pass of the loop of \<^verbatim>\<open>build_parlays\<close>: the output row of a bucket.\<close>

definition build_bucket :: "real \<Rightarrow> pred_row list \<Rightarrow> bucket_cfg \<Rightarrow> parlay_row" where
  "build_bucket pen pred_df b =
     (if pool pred_df b = [] then
        \<lparr>bucket = b_name b, legs = [], parlay_prob = 0, decimal_odds = 1, ev_per_unit = -1\<rparr>
      else
        (let legs_df = chosen_legs pred_df b;
             probs = map (\<lambda>r. clip (1/1000) (999/1000) (side_prob r) * pen) legs_df;
             prob = prod_list probs;
             dec_odds = prod_list (map pred_row.decimal_odds legs_df);
             ev = prob * dec_odds - 1
         in \<lparr>bucket = b_name b, legs = join '' | '' (map leg_text legs_df),
              parlay_prob = prob, decimal_odds = dec_odds, ev_per_unit = ev\<rparr>))"

definition build_parlays :: "pred_row list \<Rightarrow> parlays_cfg \<Rightarrow> parlay_row list" where
  "build_parlays pred_df cfg =
     (let pen = correlation_penalty cfg
      in map (build_bucket pen pred_df) (buckets cfg))"

section \<open>Example data\<close>

text \<open>
  The two legs of the specification's parlay scenario: decimal odds 2.0 and 1.8,
  probabilities 0.55 and 0.5, with the edges in percent that these give against
  the implied probabilities; a third leg whose recorded probability is exactly 1;
  and three buckets.
\<close>

definition leg_a :: pred_row where
  "leg_a = \<lparr>p_player = ''A'', p_market = ''receiving_yards'', p_side = ''Over'',
            p_line = ''55.5'', p_book_odds_american = ''100'',
            edge_pct = Some 5, side_prob = 55/100, decimal_odds = 2\<rparr>"

definition leg_b :: pred_row where
  "leg_b = \<lparr>p_player = ''B'', p_market = ''rushing_yards'', p_side = ''Under'',
            p_line = ''70.5'', p_book_odds_american = ''-125'',
            edge_pct = Some (-139/25), side_prob = 1/2, decimal_odds = 9/5\<rparr>"

definition leg_sure :: pred_row where
  "leg_sure = \<lparr>p_player = ''C'', p_market = ''receptions'', p_side = ''Over'',
               p_line = ''0.5'', p_book_odds_american = ''-1000'',
               edge_pct = Some 9, side_prob = 1, decimal_odds = 11/10\<rparr>"

definition bucket_all :: bucket_cfg where
  "bucket_all = \<lparr>b_name = ''all'', min_edge_pct = -1/10, max_legs = 2\<rparr>"

definition bucket_two_pct :: bucket_cfg where
  "bucket_two_pct = \<lparr>b_name = ''two'', min_edge_pct = 1/50, max_legs = 3\<rparr>"

definition bucket_strict :: bucket_cfg where
  "bucket_strict = \<lparr>b_name = ''strict'', min_edge_pct = 20, max_legs = 3\<rparr>"

definition bucket_no_legs :: bucket_cfg where
  "bucket_no_legs = \<lparr>b_name = ''none'', min_edge_pct = 1/50, max_legs = 0\<rparr>"

section \<open>Rounding error\<close>

text \<open>
  Two positive numbers are close up to the factor \<open>k\<close> when each is at most \<open>k\<close>
  times the other; \<open>kappa\<close> is a factor that one rounding stays within.
\<close>

definition rel_close :: "real \<Rightarrow> real \<Rightarrow> real \<Rightarrow> bool" where
  "rel_close k a b \<longleftrightarrow> b / k \<le> a \<and> a \<le> b * k"

definition kappa :: real where
  "kappa = 1 + 1 / 10 ^ 15"

text \<open>
  The binary64 roundings that the round trip of the price \<open>-2000000000\<close> through
  \<^verbatim>\<open>src/model/core.py\<close> meets: of \<open>2000000000 / 2000000100\<close>, of \<open>p / (1 - p)\<close> and
  of \<open>-100 * dec\<close>. The sum \<open>2000000000 + 100\<close> and the difference \<open>1 - p\<close> are
  floats themselves.
\<close>

definition fl_at_2e9 :: "real \<Rightarrow> real" where
  "fl_at_2e9 y =
     (if y = 20000000 / 20000001 then 2251799701095263 / 2251799813685248
      else if y = 2251799701095263 / 112589985 then 5368709122611311 / 268435456
      else if y = - 134217728065282775 / 67108864 then - 8388608004080173 / 4194304
      else y)"

section \<open>Properties\<close>

lemma american_to_implied_no_error: "american_to_implied odds \<noteq> Inl e"
proof (cases odds)
  case (Fin x)
  have "(if x < 0 then 1 + (100 / \<bar>x\<bar>) else 1 + (x / 100)) \<ge> 1"
    by (simp add: not_less)
  then show ?thesis using Fin by auto
qed simp_all

text \<open>
  Claim C7. For every pair of raw implied probabilities, \<open>devig_two_way\<close> returns
  the two shares \<open>p_a / (p_a + p_b)\<close> and \<open>p_b / (p_a + p_b)\<close> when the sum is
  positive and the absent pair when the sum is not positive; for equal positive
  arguments the result is \<open>(1/2, 1/2)\<close>.
\<close>

theorem devig_two_way_spec:
  "(0 < p_a + p_b \<longrightarrow>
      devig_two_way p_a p_b = (Some (p_a / (p_a + p_b)), Some (p_b / (p_a + p_b)))) \<and>
   (p_a + p_b \<le> 0 \<longrightarrow> devig_two_way p_a p_b = (None, None)) \<and>
   (0 < p \<longrightarrow> devig_two_way p p = (Some (1/2), Some (1/2)))"
  by (simp add: devig_two_way_def Let_def)

theorem devig_two_way_spec_witness:
  "devig_two_way (11/20) (1/2) = (Some (11/21), Some (10/21)) \<and>
   devig_two_way (-1/4) (1/4) = (None, None) \<and>
   devig_two_way (3/5) (3/5) = (Some (1/2), Some (1/2))"
  using devig_two_way_spec [of "11/20" "1/2" "3/5"] devig_two_way_spec [of "-1/4" "1/4" "3/5"]
  by simp

lemma py_round_close: "\<bar>real_of_int (py_round x) - x\<bar> \<le> 1/2"
  unfolding py_round_def Let_def
  by (auto simp: abs_le_iff)

text \<open>
  Claim C1, as the code has it. For finite odds \<open>x\<close> both converters return
  \<open>100 / (x + 100)\<close> for every \<open>x > 0\<close> (so for \<open>x \<ge> 100\<close>) and
  \<open>(-x) / ((-x) + 100)\<close> for every \<open>x < 0\<close> (so for \<open>x \<le> -100\<close>); odds strictly
  between \<open>-100\<close> and \<open>100\<close> are priced by the same formulas. \<open>american_to_prob\<close>
  returns the absent value exactly for a missing argument, NaN and \<open>0\<close>; at \<open>+inf\<close>
  it returns \<open>0\<close> and at \<open>-inf\<close> NaN. \<open>american_to_implied\<close> never fails: it
  returns \<open>1\<close> at \<open>0\<close> and \<open>-inf\<close>, \<open>0\<close> at \<open>+inf\<close> and NaN at NaN.
\<close>

theorem american_to_prob_cases:
  "(0 < x \<longrightarrow> american_to_prob (Some (Fin x)) = Some (Fin (100 / (x + 100))) \<and>
              american_to_implied (Fin x) = Inr (Fin (100 / (x + 100)))) \<and>
   (x < 0 \<longrightarrow> american_to_prob (Some (Fin x)) = Some (Fin ((- x) / ((- x) + 100))) \<and>
              american_to_implied (Fin x) = Inr (Fin ((- x) / ((- x) + 100)))) \<and>
   (american_to_prob v = None \<longleftrightarrow> v = None \<or> v = Some NaN \<or> v = Some (Fin 0)) \<and>
   american_to_implied (Fin 0) = Inr (Fin 1) \<and>
   american_to_prob (Some PInf) = Some (Fin 0) \<and>
   american_to_prob (Some NInf) = Some NaN \<and>
   american_to_implied PInf = Inr (Fin 0) \<and>
   american_to_implied NInf = Inr (Fin 1) \<and>
   american_to_implied NaN = Inr NaN"
proof -
  have pos: "american_to_implied (Fin x) = Inr (Fin (100 / (x + 100)))" if "0 < x"
    using that by (simp add: field_simps)
  have neg: "american_to_implied (Fin x) = Inr (Fin ((- x) / ((- x) + 100)))" if "x < 0"
    using that by (simp add: field_simps)
  have none: "american_to_prob v = None \<longleftrightarrow> v = None \<or> v = Some NaN \<or> v = Some (Fin 0)"
  proof (cases v)
    case None
    then show ?thesis by simp
  next
    case (Some f)
    then show ?thesis by (cases f) auto
  qed
  show ?thesis using pos neg none by simp
qed


theorem american_to_prob_cases_witness:
  "american_to_prob (Some (Fin 120)) = Some (Fin (5/11)) \<and>
   american_to_implied (Fin 120) = Inr (Fin (5/11)) \<and>
   american_to_prob (Some (Fin (-130))) = Some (Fin (13/23)) \<and>
   american_to_implied (Fin (-130)) = Inr (Fin (13/23))"
  using american_to_prob_cases [of 120] american_to_prob_cases [of "-130"] by simp

text \<open>
  The claim as stated asks for a failure on odds strictly between \<open>-100\<close> and
  \<open>100\<close> and on non-finite input; the code returns numbers there.
\<close>

theorem american_to_prob_counterexample:
  "american_to_prob (Some (Fin 50)) = Some (Fin (2/3)) \<and>
   american_to_implied (Fin 50) = Inr (Fin (2/3)) \<and>
   american_to_prob (Some (Fin (-50))) = Some (Fin (1/3)) \<and>
   american_to_prob (Some PInf) = Some (Fin 0) \<and>
   american_to_implied PInf = Inr (Fin 0)"
  by simp

lemma kappa_gt1: "1 < kappa" "0 < kappa" "1 \<le> kappa"
  by (simp_all add: kappa_def)

lemma rel_close_refl: "1 \<le> k \<Longrightarrow> 0 \<le> b \<Longrightarrow> rel_close k b b"
  unfolding rel_close_def
proof
  assume k: "1 \<le> k" and b: "0 \<le> b"
  show "b / k \<le> b" using k b by (simp add: field_simps mult_le_cancel_left1)
  show "b \<le> b * k" using k b by (simp add: mult_le_cancel_left1)
qed

lemma rel_close_pos: "rel_close k a b \<Longrightarrow> 0 < b \<Longrightarrow> 0 < k \<Longrightarrow> 0 < a"
  unfolding rel_close_def by (meson divide_pos_pos less_le_trans)

lemma rel_close_mult:
  assumes "rel_close k a b" "rel_close m c d" "0 < b" "0 < d" "0 < k" "0 < m"
  shows "rel_close (k * m) (a * c) (b * d)"
proof -
  have a: "0 < a" and c: "0 < c" using assms rel_close_pos by blast+
  have "(b / k) * (d / m) \<le> a * c"
    using assms a c unfolding rel_close_def by (intro mult_mono) simp_all
  moreover have "a * c \<le> (b * k) * (d * m)"
    using assms a c unfolding rel_close_def by (intro mult_mono) simp_all
  ultimately show ?thesis unfolding rel_close_def by (simp add: field_simps)
qed

lemma rel_close_inverse:
  assumes "rel_close k a b" "0 < b" "0 < k"
  shows "rel_close k (1 / a) (1 / b)"
proof -
  have a: "0 < a" using assms rel_close_pos by blast
  have "1 / a \<le> 1 / (b / k)" using assms a unfolding rel_close_def
    by (intro divide_left_mono) simp_all
  moreover have "1 / (b * k) \<le> 1 / a" using assms a unfolding rel_close_def
    by (intro divide_left_mono) simp_all
  ultimately show ?thesis using assms unfolding rel_close_def by (simp add: field_simps)
qed

lemma rel_close_div:
  assumes "rel_close k a b" "rel_close m c d" "0 < b" "0 < d" "0 < k" "0 < m"
  shows "rel_close (k * m) (a / c) (b / d)"
proof -
  have "rel_close (k * m) (a * (1 / c)) (b * (1 / d))"
    using assms by (intro rel_close_mult rel_close_inverse) simp_all
  then show ?thesis by simp
qed

lemma rel_close_trans:
  assumes "rel_close k a b" "rel_close m b c" "0 < c" "0 < k" "0 < m"
  shows "rel_close (k * m) a c"
proof -
  have f: "c / m \<le> b" "b \<le> c * m" "b / k \<le> a" "a \<le> b * k"
    using assms unfolding rel_close_def by simp_all
  have "(c / m) / k \<le> b / k" using f(1) assms(4) by (intro divide_right_mono) simp_all
  moreover have "b * k \<le> (c * m) * k" using f(2) assms(4) by (intro mult_right_mono) simp_all
  ultimately have "(c / m) / k \<le> a" "a \<le> (c * m) * k" using f by linarith+
  then show ?thesis unfolding rel_close_def by (simp add: field_simps)
qed

lemma rel_close_weaken:
  assumes "rel_close k a b" "k \<le> m" "0 < b" "0 < k"
  shows "rel_close m a b"
proof -
  have "b / m \<le> b / k" using assms by (intro divide_left_mono) simp_all
  moreover have "b * k \<le> b * m" using assms by simp
  ultimately show ?thesis using assms unfolding rel_close_def by linarith
qed

lemma rel_close_add:
  assumes "rel_close k a b" "rel_close k c d" "0 < k"
  shows "rel_close k (a + c) (b + d)"
  using assms unfolding rel_close_def by (simp add: add_divide_distrib distrib_right add_mono)

lemma rel_close_fl:
  assumes "rounds_to_nearest fl" "0 < y"
  shows "rel_close kappa (fl y) y"
proof -
  have "\<bar>fl y - y\<bar> \<le> \<bar>y\<bar> / 2 ^ 53"
    using assms(1) unfolding rounds_to_nearest_def by blast
  moreover have "\<bar>y\<bar> = y" using assms(2) by simp
  ultimately have e: "\<bar>fl y - y\<bar> \<le> y / 2 ^ 53" by (simp only:)
  have lo: "y - y / 2 ^ 53 \<le> fl y" and hi: "fl y \<le> y + y / 2 ^ 53" using e by linarith+
  have "y / kappa \<le> y - y / 2 ^ 53"
  proof -
    have "1 / kappa \<le> 1 - 1 / 2 ^ 53" by (simp add: kappa_def)
    then have "y * (1 / kappa) \<le> y * (1 - 1 / 2 ^ 53)" using assms(2) by (intro mult_left_mono) simp_all
    then show ?thesis by (simp add: algebra_simps)
  qed
  moreover have "y + y / 2 ^ 53 \<le> y * kappa"
  proof -
    have "1 + 1 / 2 ^ 53 \<le> kappa" by (simp add: kappa_def)
    then have "y * (1 + 1 / 2 ^ 53) \<le> y * kappa" using assms(2) by (intro mult_left_mono) simp_all
    then show ?thesis by (simp add: algebra_simps)
  qed
  ultimately show ?thesis using lo hi unfolding rel_close_def by linarith
qed

lemma rel_close_fl_neg:
  assumes "rounds_to_nearest fl" "y < 0"
  shows "rel_close kappa (- fl y) (- y)"
proof -
  define g where "g = (\<lambda>z. - fl (- z))"
  have "rounds_to_nearest g"
    using assms(1) unfolding rounds_to_nearest_def g_def
    by (metis abs_minus_cancel abs_minus_commute minus_diff_eq minus_minus diff_minus_eq_add add.commute uminus_add_conv_diff)
  then have "rel_close kappa (g (- y)) (- y)" using assms(2) by (intro rel_close_fl) simp_all
  then show ?thesis by (simp add: g_def)
qed


lemma kappa3: "1 \<le> kappa ^ 3" "kappa ^ 3 \<le> 1 + 4 / 10 ^ 15" "0 < kappa ^ 3"
  by (simp_all add: kappa_def power3_eq_cube)

lemma kappa23: "kappa * kappa \<le> kappa ^ 3"
  by (simp add: kappa_def power3_eq_cube)

lemma rel_close_bounds:
  assumes "rel_close k a b" "0 < b" "1 \<le> k" "k \<le> 1 + e"
  shows "b * (1 - e) \<le> a \<and> a \<le> b * (1 + e)"
proof -
  have e: "0 \<le> e" using assms by simp
  have "b * (1 - e) \<le> b / (1 + e)"
  proof -
    have "(1 - e) * (1 + e) \<le> 1" by (simp add: algebra_simps)
    then have "1 - e \<le> 1 / (1 + e)" using e by (simp add: field_simps)
    then have "b * (1 - e) \<le> b * (1 / (1 + e))" using assms(2) by (intro mult_left_mono) simp_all
    then show ?thesis by simp
  qed
  moreover have "b / (1 + e) \<le> b / k" using assms by (intro divide_left_mono) simp_all
  moreover have "b * k \<le> b * (1 + e)" using assms by (intro mult_left_mono) simp_all
  ultimately show ?thesis using assms(1) unfolding rel_close_def by linarith
qed

lemma rel_close_fl3:
  assumes "rounds_to_nearest fl" "rel_close (kappa ^ 2) a b" "0 < b"
  shows "rel_close (kappa ^ 3) (fl a) b"
proof -
  have a: "0 < a" using assms(2,3) kappa_gt1 by (intro rel_close_pos [of "kappa ^ 2" a b]) simp_all
  have "rel_close kappa (fl a) a" using assms(1) a by (rule rel_close_fl)
  then have "rel_close (kappa * kappa ^ 2) (fl a) b"
    using assms(2,3) kappa_gt1 by (intro rel_close_trans [of _ _ a]) simp_all
  then show ?thesis by (simp add: power3_eq_cube power2_eq_square mult.assoc)
qed

text \<open>The underdog price from a probability close to 100 / (x + 100).\<close>

lemma underdog_price_rounded:
  assumes R: "rounds_to_nearest fl"
    and x: "100 + 1/1000 \<le> x" "x \<le> 1000000"
    and p: "rel_close (kappa ^ 3) p (100 / (x + 100))"
  shows "0 < p \<and> p < 1/2 \<and> fl (1 - p) \<noteq> 0 \<and>
         \<bar>fl (100 * fl (fl (1 - p) / p)) - x\<bar> \<le> 1/1000"
proof -
  define P where "P = 100 / (x + 100)"
  define e :: real where "e = 4 / 10 ^ 15"
  have P: "0 < P" "P \<le> 100 / (200 + 1/1000)"
    using x unfolding P_def by (simp_all add: field_simps)
  have pb: "P * (1 - e) \<le> p \<and> p \<le> P * (1 + e)"
    using p P(1) kappa3 unfolding P_def [symmetric] e_def by (intro rel_close_bounds) simp_all
  have p': "rel_close (kappa ^ 3) p P" using p by (simp add: P_def)
  have p0: "0 < p" using p' P(1) kappa3(3) by (rule rel_close_pos)
  have "P * (1 + e) \<le> 100 / (200 + 1/1000) * (1 + e)"
    using P(2) by (intro mult_right_mono) (simp_all add: e_def)
  also have "\<dots> < 1/2" by (simp add: e_def)
  finally have p2: "p < 1/2" using pb by linarith
  have q0: "0 < 1 - p" using p2 by simp
  have q: "rel_close kappa (fl (1 - p)) (1 - p)" using R q0 by (rule rel_close_fl)
  then have fq0: "0 < fl (1 - p)" using q0 kappa_gt1 by (intro rel_close_pos [OF q]) simp_all
  have "rel_close (kappa * 1) (fl (1 - p) / p) ((1 - p) / p)"
    using q q0 p0 kappa_gt1 by (intro rel_close_div rel_close_refl) simp_all
  then have d1: "rel_close kappa (fl (1 - p) / p) ((1 - p) / p)" by simp
  have r0: "0 < fl (1 - p) / p" using fq0 p0 by simp
  have "rel_close kappa (fl (fl (1 - p) / p)) (fl (1 - p) / p)" using R r0 by (rule rel_close_fl)
  then have d2: "rel_close (kappa * kappa) (fl (fl (1 - p) / p)) ((1 - p) / p)"
    using d1 q0 p0 kappa_gt1 by (intro rel_close_trans [of _ _ "fl (1 - p) / p"]) simp_all
  have dec0: "0 < fl (fl (1 - p) / p)"
    using d2 q0 p0 kappa_gt1 by (intro rel_close_pos [OF d2]) simp_all
  have "rel_close (1 * (kappa * kappa)) (100 * fl (fl (1 - p) / p)) (100 * ((1 - p) / p))"
    using d2 q0 p0 kappa_gt1 by (intro rel_close_mult rel_close_refl) simp_all
  then have d3: "rel_close (kappa ^ 2) (100 * fl (fl (1 - p) / p)) (100 * ((1 - p) / p))"
    by (simp add: power2_eq_square)
  define w where "w = 100 * ((1 - p) / p)"
  have w0: "0 < w" using q0 p0 by (simp add: w_def)
  have v: "rel_close (kappa ^ 3) (fl (100 * fl (fl (1 - p) / p))) w"
    using R d3 w0 unfolding w_def by (rule rel_close_fl3)
  define v' where "v' = fl (100 * fl (fl (1 - p) / p))"
  have vb: "w * (1 - e) \<le> v' \<and> v' \<le> w * (1 + e)"
    using v w0 kappa3 unfolding v'_def e_def by (intro rel_close_bounds) simp_all
  define h where "h = 100 / p"
  have "rel_close (1 * kappa ^ 3) (100 / p) (100 / P)"
    using p P(1) kappa3 unfolding P_def [symmetric]
    by (intro rel_close_div rel_close_refl) simp_all
  moreover have "100 / P = x + 100" using x by (simp add: P_def)
  ultimately have "rel_close (kappa ^ 3) h (x + 100)" by (simp add: h_def)
  then have hb: "(x + 100) * (1 - e) \<le> h \<and> h \<le> (x + 100) * (1 + e)"
    using x kappa3 unfolding e_def by (intro rel_close_bounds) simp_all
  have wh: "w = h - 100" using p0 by (simp add: w_def h_def field_simps)
  have "v' - x \<le> 1/1000" using vb hb wh x unfolding e_def by (simp add: algebra_simps)
  moreover have "x - v' \<le> 1/1000" using vb hb wh x unfolding e_def by (simp add: algebra_simps)
  ultimately have "\<bar>v' - x\<bar> \<le> 1/1000" by linarith
  then show ?thesis using p0 p2 fq0 unfolding v'_def by simp
qed


text \<open>The favourite price from a probability close to a / (a + 100).\<close>

lemma favourite_price_rounded:
  assumes R: "rounds_to_nearest fl"
    and a: "100 + 1/1000 \<le> a" "a \<le> 1000000"
    and p: "rel_close (kappa ^ 3) p (a / (a + 100))"
  shows "1/2 \<le> p \<and> p < 1 \<and> fl (1 - p) \<noteq> 0 \<and>
         \<bar>fl (-100 * fl (p / fl (1 - p))) - (- a)\<bar> \<le> 1/1000"
proof -
  define P where "P = a / (a + 100)"
  define e :: real where "e = 4 / 10 ^ 15"
  define t :: real where "t = 2 / 10 ^ 10"
  define g where "g = 100 / a"
  have P0: "0 < P" using a by (simp add: P_def)
  have Plo: "(100 + 1/1000) / (200 + 1/1000) \<le> P" using a by (simp add: P_def field_simps)
  have Phi: "P \<le> 1 - 100 / 1000100" using a by (simp add: P_def field_simps)
  have p': "rel_close (kappa ^ 3) p P" using p by (simp add: P_def)
  have pb: "P * (1 - e) \<le> p \<and> p \<le> P * (1 + e)"
    using p' P0 kappa3 unfolding e_def by (intro rel_close_bounds) simp_all
  have p0: "0 < p" using p' P0 kappa3(3) by (rule rel_close_pos)
  have "1/2 \<le> (100 + 1/1000) / (200 + 1/1000) * (1 - e)" by (simp add: e_def)
  also have "\<dots> \<le> P * (1 - e)" using Plo by (intro mult_right_mono) (simp_all add: e_def)
  finally have p2: "1/2 \<le> p" using pb by linarith
  have "P * (1 + e) \<le> (1 - 100 / 1000100) * (1 + e)"
    using Phi by (intro mult_right_mono) (simp_all add: e_def)
  also have "\<dots> < 1" by (simp add: e_def)
  finally have p1: "p < 1" using pb by linarith
  have q0: "0 < 1 - p" using p1 by simp
  have q: "rel_close kappa (fl (1 - p)) (1 - p)" using R q0 by (rule rel_close_fl)
  have fq0: "0 < fl (1 - p)" using q0 kappa_gt1 by (intro rel_close_pos [OF q]) simp_all
  have "rel_close (1 * kappa) (p / fl (1 - p)) (p / (1 - p))"
    using q q0 p0 kappa_gt1 by (intro rel_close_div rel_close_refl) simp_all
  then have d1: "rel_close kappa (p / fl (1 - p)) (p / (1 - p))" by simp
  have r0: "0 < p / fl (1 - p)" using fq0 p0 by simp
  have "rel_close kappa (fl (p / fl (1 - p))) (p / fl (1 - p))" using R r0 by (rule rel_close_fl)
  then have d2: "rel_close (kappa * kappa) (fl (p / fl (1 - p))) (p / (1 - p))"
    using d1 q0 p0 kappa_gt1 by (intro rel_close_trans [of _ _ "p / fl (1 - p)"]) simp_all
  have dec0: "0 < fl (p / fl (1 - p))"
    using q0 p0 kappa_gt1 by (intro rel_close_pos [OF d2]) simp_all
  define w where "w = 100 * (p / (1 - p))"
  have w0: "0 < w" using q0 p0 by (simp add: w_def)
  have "rel_close (1 * (kappa * kappa)) (100 * fl (p / fl (1 - p))) (100 * (p / (1 - p)))"
    using d2 q0 p0 kappa_gt1 by (intro rel_close_mult rel_close_refl) simp_all
  then have d3: "rel_close (kappa * kappa) (100 * fl (p / fl (1 - p))) w"
    by (simp add: w_def)
  define v' where "v' = - fl (-100 * fl (p / fl (1 - p)))"
  have "rel_close kappa (- fl (- (100 * fl (p / fl (1 - p))))) (- (- (100 * fl (p / fl (1 - p)))))"
    using R dec0 by (intro rel_close_fl_neg) simp_all
  then have "rel_close kappa v' (100 * fl (p / fl (1 - p)))" by (simp add: v'_def)
  then have "rel_close (kappa * (kappa * kappa)) v' w"
    using d3 w0 by (rule rel_close_trans) (simp_all add: kappa_gt1)
  then have v: "rel_close (kappa ^ 3) v' w" by (simp add: power3_eq_cube mult.assoc)
  have vb: "w * (1 - e) \<le> v' \<and> v' \<le> w * (1 + e)"
    using v w0 kappa3 unfolding e_def by (intro rel_close_bounds) simp_all
  define h where "h = 1 / p"
  have "rel_close (kappa ^ 3) (1 / p) (1 / P)" using p' P0 kappa3(3) by (rule rel_close_inverse)
  moreover have "1 / P = 1 + g" using a by (simp add: P_def g_def field_simps)
  ultimately have hh: "rel_close (kappa ^ 3) h (1 + g)" by (simp add: h_def)
  have g0: "1 / 10000 \<le> g" "g \<le> 1" using a by (simp_all add: g_def field_simps)
  have hb: "(1 + g) * (1 - e) \<le> h \<and> h \<le> (1 + g) * (1 + e)"
    using hh g0 kappa3 unfolding e_def by (intro rel_close_bounds) simp_all
  have h1: "0 < h - 1" using hb g0 unfolding e_def by (simp add: algebra_simps)
  have u1: "g \<le> (h - 1) * (1 + t)" using hb g0 unfolding e_def t_def by (simp add: algebra_simps)
  have u2: "(h - 1) * (1 - t) \<le> g" using hb g0 unfolding e_def t_def by (simp add: algebra_simps)
  have a0: "0 < a" "0 < g" using a g0 by simp_all
  have wh: "w = 100 / (h - 1)" using p0 q0 by (simp add: w_def h_def field_simps)
  have ag: "a = 100 / g" using a0 by (simp add: g_def)
  have w_hi: "w \<le> a * (1 + t)"
  proof -
    have "100 / (h - 1) \<le> 100 * (1 + t) / g"
      using u1 h1 a0(2) by (simp add: field_simps)
    then show ?thesis by (simp add: wh ag)
  qed
  have w_lo: "a * (1 - t) \<le> w"
  proof -
    have "100 * (1 - t) / g \<le> 100 / (h - 1)"
      using u2 h1 a0(2) by (simp add: field_simps)
    then show ?thesis by (simp add: wh ag)
  qed
  have "v' - a \<le> 1/1000"
    using vb w_hi w_lo a unfolding e_def t_def by (simp add: algebra_simps)
  moreover have "a - v' \<le> 1/1000"
    using vb w_hi w_lo a unfolding e_def t_def by (simp add: algebra_simps)
  ultimately have "\<bar>v' - a\<bar> \<le> 1/1000" by linarith
  then have "\<bar>fl (-100 * fl (p / fl (1 - p))) - (- a)\<bar> \<le> 1/1000"
    unfolding v'_def by linarith
  then show ?thesis using p2 p1 fq0 by simp
qed


lemma py_round_near:
  assumes "\<bar>v - x\<bar> \<le> 1/1000"
  shows "\<bar>real_of_int (py_round v) - x\<bar> \<le> 1/2 + 1/1000 \<and>
         (\<forall>j. x = of_int j \<longrightarrow> py_round v = j)"
proof -
  have c: "\<bar>real_of_int (py_round v) - v\<bar> \<le> 1/2" by (rule py_round_close)
  have a: "\<bar>real_of_int (py_round v) - x\<bar> \<le> 1/2 + 1/1000" using c assms by linarith
  have b: "py_round v = j" if "x = of_int j" for j
  proof -
    have "\<bar>real_of_int (py_round v) - real_of_int j\<bar> < 1" using a that by simp
    then have "\<bar>real_of_int (py_round v - j)\<bar> < 1" by simp
    then have "\<bar>py_round v - j\<bar> < 1" by linarith
    then show ?thesis by simp
  qed
  show ?thesis using a b by blast
qed

lemma core_prob_underdog:
  assumes R: "rounds_to_nearest fl" and x: "0 < x"
  shows "\<exists>p. american_to_prob_fl fl (Some (Fin x)) = Inr (Some (Fin p)) \<and>
             rel_close (kappa ^ 3) p (100 / (x + 100))"
proof -
  have s: "rel_close kappa (fl (x + 100)) (x + 100)" using R x by (intro rel_close_fl) simp_all
  have s0: "0 < fl (x + 100)" using x kappa_gt1 by (intro rel_close_pos [OF s]) simp_all
  have "rel_close (1 * kappa) (100 / fl (x + 100)) (100 / (x + 100))"
    using s x kappa_gt1 by (intro rel_close_div rel_close_refl) simp_all
  moreover have "rel_close kappa (fl (100 / fl (x + 100))) (100 / fl (x + 100))"
    using R s0 by (intro rel_close_fl) simp_all
  ultimately have "rel_close (kappa * kappa) (fl (100 / fl (x + 100))) (100 / (x + 100))"
    using x kappa_gt1 by (intro rel_close_trans [of _ _ "100 / fl (x + 100)"]) simp_all
  then have "rel_close (kappa ^ 3) (fl (100 / fl (x + 100))) (100 / (x + 100))"
    by (rule rel_close_weaken) (use x kappa_gt1 kappa23 in simp_all)
  moreover have "american_to_prob_fl fl (Some (Fin x)) = Inr (Some (Fin (fl (100 / fl (x + 100)))))"
    using x s0 by (simp add: Let_def)
  ultimately show ?thesis by blast
qed

lemma core_prob_favourite:
  assumes R: "rounds_to_nearest fl" and a: "0 < a"
  shows "\<exists>p. american_to_prob_fl fl (Some (Fin (- a))) = Inr (Some (Fin p)) \<and>
             rel_close (kappa ^ 3) p (a / (a + 100))"
proof -
  have s: "rel_close kappa (fl (a + 100)) (a + 100)" using R a by (intro rel_close_fl) simp_all
  have s0: "0 < fl (a + 100)" using a kappa_gt1 by (intro rel_close_pos [OF s]) simp_all
  have "rel_close (1 * kappa) (a / fl (a + 100)) (a / (a + 100))"
    using s a kappa_gt1 by (intro rel_close_div rel_close_refl) simp_all
  moreover have "rel_close kappa (fl (a / fl (a + 100))) (a / fl (a + 100))"
    using R s0 a by (intro rel_close_fl) simp_all
  ultimately have "rel_close (kappa * kappa) (fl (a / fl (a + 100))) (a / (a + 100))"
    using a kappa_gt1 by (intro rel_close_trans [of _ _ "a / fl (a + 100)"]) simp_all
  then have "rel_close (kappa ^ 3) (fl (a / fl (a + 100))) (a / (a + 100))"
    by (rule rel_close_weaken) (use a kappa_gt1 kappa23 in simp_all)
  moreover have "american_to_prob_fl fl (Some (Fin (- a))) = Inr (Some (Fin (fl (a / fl (a + 100)))))"
    using a s0 by (simp add: Let_def)
  ultimately show ?thesis by blast
qed


lemma rel_close_one_plus:
  assumes "rel_close kappa y z" "0 < z"
  shows "rel_close kappa (1 + y) (1 + z)"
  using rel_close_add [OF rel_close_refl [of kappa 1] assms(1)] kappa_gt1 by simp

lemma implied_from_decimal:
  assumes R: "rounds_to_nearest fl" and z: "0 < z" and y: "rel_close kappa y z"
  shows "0 < fl (1 + y) \<and> rel_close (kappa ^ 3) (fl (1 / fl (1 + y))) (1 / (1 + z))"
proof -
  have y0: "0 < y" using y z kappa_gt1(2) by (rule rel_close_pos)
  have a: "rel_close kappa (1 + y) (1 + z)" using y z by (rule rel_close_one_plus)
  have "rel_close kappa (fl (1 + y)) (1 + y)" using R y0 by (intro rel_close_fl) simp_all
  then have d: "rel_close (kappa * kappa) (fl (1 + y)) (1 + z)"
    using a by (rule rel_close_trans) (use z kappa_gt1 in simp_all)
  have d0: "0 < fl (1 + y)" using d by (rule rel_close_pos) (use z kappa_gt1 in simp_all)
  have i: "rel_close (kappa * kappa) (1 / fl (1 + y)) (1 / (1 + z))"
    using d by (rule rel_close_inverse) (use z kappa_gt1 in simp_all)
  have "rel_close kappa (fl (1 / fl (1 + y))) (1 / fl (1 + y))"
    using R d0 by (intro rel_close_fl) simp_all
  then have "rel_close (kappa * (kappa * kappa)) (fl (1 / fl (1 + y))) (1 / (1 + z))"
    using i by (rule rel_close_trans) (use z kappa_gt1 in simp_all)
  then show ?thesis using d0 by (simp add: power3_eq_cube mult.assoc)
qed

lemma io_prob_underdog:
  assumes R: "rounds_to_nearest fl" and x: "0 < x"
  shows "\<exists>p. american_to_implied_fl fl (Fin x) = Inr (Fin p) \<and>
             rel_close (kappa ^ 3) p (100 / (x + 100))"
proof -
  have y: "rel_close kappa (fl (x / 100)) (x / 100)" using R x by (intro rel_close_fl) simp_all
  have z: "0 < x / 100" using x by simp
  note d = implied_from_decimal [OF R z y]
  have e: "1 / (1 + x / 100) = 100 / (x + 100)" using x by (simp add: field_simps)
  have "american_to_implied_fl fl (Fin x) = Inr (Fin (fl (1 / fl (1 + fl (x / 100)))))"
    using x d by simp
  then show ?thesis using d e by simp
qed

lemma io_prob_favourite:
  assumes R: "rounds_to_nearest fl" and a: "0 < a"
  shows "\<exists>p. american_to_implied_fl fl (Fin (- a)) = Inr (Fin p) \<and>
             rel_close (kappa ^ 3) p (a / (a + 100))"
proof -
  have y: "rel_close kappa (fl (100 / a)) (100 / a)" using R a by (intro rel_close_fl) simp_all
  have z: "0 < 100 / a" using a by simp
  note d = implied_from_decimal [OF R z y]
  have e: "1 / (1 + 100 / a) = a / (a + 100)" using a by (simp add: field_simps)
  have "american_to_implied_fl fl (Fin (- a)) = Inr (Fin (fl (1 / fl (1 + fl (100 / a)))))"
    using a d by simp
  then show ?thesis using d e by simp
qed

lemma kappa1: "kappa \<le> 1 + 1 / 10 ^ 15"
  by (simp add: kappa_def)

lemma io_clamp:
  assumes R: "rounds_to_nearest fl" and p: "1 / 100000 \<le> p" "p \<le> 1 - 1 / 100000"
  shows "min (max p (fl (1/1000000))) (fl (1 - fl (1/1000000))) = p"
proof -
  define lo where "lo = fl (1/1000000)"
  define hi where "hi = fl (1 - lo)"
  have "rel_close kappa lo (1/1000000)" unfolding lo_def using R by (intro rel_close_fl) simp_all
  then have lb: "1/1000000 * (1 - 1 / 10 ^ 15) \<le> lo \<and> lo \<le> 1/1000000 * (1 + 1 / 10 ^ 15)"
    using kappa_gt1 kappa1 by (intro rel_close_bounds) simp_all
  then have l1: "0 < 1 - lo" by simp
  have "rel_close kappa hi (1 - lo)" unfolding hi_def using R l1 by (rule rel_close_fl)
  then have hb: "(1 - lo) * (1 - 1 / 10 ^ 15) \<le> hi \<and> hi \<le> (1 - lo) * (1 + 1 / 10 ^ 15)"
    using l1 kappa_gt1 kappa1 by (intro rel_close_bounds) simp_all
  have "lo \<le> p" using lb p by simp
  moreover have "p \<le> hi" using lb hb p by (simp add: algebra_simps)
  ultimately show ?thesis unfolding lo_def hi_def by simp
qed


lemma prob_bounds_underdog:
  assumes "100 + 1/1000 \<le> x" "x \<le> 1000000" "rel_close (kappa ^ 3) p (100 / (x + 100))"
  shows "1 / 100000 \<le> p"
proof -
  define P where "P = 100 / (x + 100)"
  have P: "0 < P" "100 / 1000100 \<le> P" using assms(1,2) by (simp_all add: P_def field_simps)
  have "P * (1 - 4 / 10 ^ 15) \<le> p \<and> p \<le> P * (1 + 4 / 10 ^ 15)"
    using assms(3) P(1) kappa3 unfolding P_def by (intro rel_close_bounds) simp_all
  then show ?thesis using P(2) by (simp add: algebra_simps)
qed

lemma prob_bounds_favourite:
  assumes "100 + 1/1000 \<le> a" "a \<le> 1000000" "rel_close (kappa ^ 3) p (a / (a + 100))"
  shows "p \<le> 1 - 1 / 100000"
proof -
  define P where "P = a / (a + 100)"
  have P: "0 < P" "P \<le> 1 - 100 / 1000100" using assms(1,2) by (simp_all add: P_def field_simps)
  have "P * (1 - 4 / 10 ^ 15) \<le> p \<and> p \<le> P * (1 + 4 / 10 ^ 15)"
    using assms(3) P(1) kappa3 unfolding P_def by (intro rel_close_bounds) simp_all
  then show ?thesis using P by (simp add: algebra_simps)
qed

lemma round_trip_core:
  assumes R: "rounds_to_nearest fl" and x: "100 + 1/1000 \<le> \<bar>x\<bar>" "\<bar>x\<bar> \<le> 1000000"
  shows "\<exists>p n. american_to_prob_fl fl (Some (Fin x)) = Inr (Some (Fin p)) \<and> 0 < p \<and> p < 1 \<and>
               prob_to_american fl (Some (Fin p)) = Inr (Some n) \<and>
               \<bar>real_of_int n - x\<bar> \<le> 1/2 + 1/1000 \<and> (\<forall>j. x = of_int j \<longrightarrow> n = j)"
proof (cases "0 < x")
  case True
  then have x': "100 + 1/1000 \<le> x" "x \<le> 1000000" using x by simp_all
  obtain p where p: "american_to_prob_fl fl (Some (Fin x)) = Inr (Some (Fin p))"
    "rel_close (kappa ^ 3) p (100 / (x + 100))"
    using core_prob_underdog [OF R True] by blast
  define v where "v = fl (100 * fl (fl (1 - p) / p))"
  have u: "0 < p" "p < 1/2" "\<bar>v - x\<bar> \<le> 1/1000"
    using underdog_price_rounded [OF R x' p(2)] by (simp_all add: v_def)
  have "prob_to_american fl (Some (Fin p)) = Inr (Some (py_round v))"
    using u(1,2) by (simp add: Let_def v_def)
  moreover have "p < 1" using u(2) by simp
  ultimately show ?thesis using p(1) u(1) py_round_near [OF u(3)] by blast
next
  case False
  define a where "a = - x"
  have a: "100 + 1/1000 \<le> a" "a \<le> 1000000" "0 < a" "x = - a" using x False by (simp_all add: a_def)
  obtain p where p: "american_to_prob_fl fl (Some (Fin (- a))) = Inr (Some (Fin p))"
    "rel_close (kappa ^ 3) p (a / (a + 100))"
    using core_prob_favourite [OF R a(3)] by blast
  define v where "v = fl (-100 * fl (p / fl (1 - p)))"
  have u: "1/2 \<le> p" "p < 1" "fl (1 - p) \<noteq> 0" "\<bar>v - (- a)\<bar> \<le> 1/1000"
    using favourite_price_rounded [OF R a(1,2) p(2)] by (simp_all add: v_def)
  have "prob_to_american fl (Some (Fin p)) = Inr (Some (py_round v))"
    using u(1,2,3) by (simp add: Let_def v_def)
  moreover have "0 < p" using u(1) by simp
  ultimately show ?thesis using p(1) u(2) py_round_near [OF u(4)] unfolding a(4) by blast
qed

lemma round_trip_io:
  assumes R: "rounds_to_nearest fl" and x: "100 + 1/1000 \<le> \<bar>x\<bar>" "\<bar>x\<bar> \<le> 1000000"
  shows "\<exists>p n. american_to_implied_fl fl (Fin x) = Inr (Fin p) \<and> 0 < p \<and> p < 1 \<and>
               prob_to_american_io fl p = Inr n \<and>
               \<bar>real_of_int n - x\<bar> \<le> 1/2 + 1/1000 \<and> (\<forall>j. x = of_int j \<longrightarrow> n = j)"
proof (cases "0 < x")
  case True
  then have x': "100 + 1/1000 \<le> x" "x \<le> 1000000" using x by simp_all
  obtain p where p: "american_to_implied_fl fl (Fin x) = Inr (Fin p)"
    "rel_close (kappa ^ 3) p (100 / (x + 100))"
    using io_prob_underdog [OF R True] by blast
  define v where "v = fl (100 * fl (fl (1 - p) / p))"
  have u: "0 < p" "p < 1/2" "\<bar>v - x\<bar> \<le> 1/1000"
    using underdog_price_rounded [OF R x' p(2)] by (simp_all add: v_def)
  have lo: "1 / 100000 \<le> p" using x' p(2) by (rule prob_bounds_underdog)
  have c: "min (max p (fl (1/1000000))) (fl (1 - fl (1/1000000))) = p"
    using R lo u(2) by (intro io_clamp) simp_all
  have "prob_to_american_io fl p = Inr (py_round v)"
    using u(1,2) unfolding prob_to_american_io_def c by (simp add: Let_def v_def)
  moreover have "p < 1" using u(2) by simp
  ultimately show ?thesis using p(1) u(1) py_round_near [OF u(3)] by blast
next
  case False
  define a where "a = - x"
  have a: "100 + 1/1000 \<le> a" "a \<le> 1000000" "0 < a" "x = - a" using x False by (simp_all add: a_def)
  obtain p where p: "american_to_implied_fl fl (Fin (- a)) = Inr (Fin p)"
    "rel_close (kappa ^ 3) p (a / (a + 100))"
    using io_prob_favourite [OF R a(3)] by blast
  define v where "v = fl (-100 * fl (p / fl (1 - p)))"
  have u: "1/2 \<le> p" "p < 1" "fl (1 - p) \<noteq> 0" "\<bar>v - (- a)\<bar> \<le> 1/1000"
    using favourite_price_rounded [OF R a(1,2) p(2)] by (simp_all add: v_def)
  have hi: "p \<le> 1 - 1 / 100000" using a(1,2) p(2) by (rule prob_bounds_favourite)
  have c: "min (max p (fl (1/1000000))) (fl (1 - fl (1/1000000))) = p"
    using R u(1) hi by (intro io_clamp) simp_all
  have "prob_to_american_io fl p = Inr (py_round v)"
    using u(1,2,3) unfolding prob_to_american_io_def c by (simp add: Let_def v_def)
  moreover have "0 < p" using u(1) by simp
  ultimately show ?thesis using p(1) u(2) py_round_near [OF u(4)] unfolding a(4) by blast
qed

lemma even_money:
  assumes R: "rounds_to_nearest fl"
    and E: "fl 1 = 1" "fl 2 = 2" "fl 200 = 200" "fl (1/2) = 1/2" "fl (-100) = -100"
  shows "american_to_prob_fl fl (Some (Fin 100)) = Inr (Some (Fin (1/2))) \<and>
         american_to_prob_fl fl (Some (Fin (-100))) = Inr (Some (Fin (1/2))) \<and>
         prob_to_american fl (Some (Fin (1/2))) = Inr (Some (-100)) \<and>
         american_to_implied_fl fl (Fin 100) = Inr (Fin (1/2)) \<and>
         american_to_implied_fl fl (Fin (-100)) = Inr (Fin (1/2)) \<and>
         prob_to_american_io fl (1/2) = Inr (-100)"
proof -
  have r: "py_round (-100) = -100" by (simp add: py_round_def)
  have c: "min (max (1/2) (fl (1/1000000))) (fl (1 - fl (1/1000000))) = 1/2"
    using R by (intro io_clamp) simp_all
  have "prob_to_american_io fl (1/2) = Inr (-100)"
    unfolding prob_to_american_io_def c by (simp add: Let_def E r)
  then show ?thesis by (simp add: Let_def E r)
qed

text \<open>
  Claim C8, as the code has it. Let every floating-point operation be rounded to
  nearest. For every price \<open>x\<close> with \<open>100.001 \<le> \<bar>x\<bar> \<le> 1000000\<close>, each variant
  turns \<open>x\<close> into a probability strictly between 0 and 1 and turns that probability
  back into an integer price within \<open>1/2 + 1/1000\<close> of \<open>x\<close>, which is \<open>x\<close> itself
  when \<open>x\<close> is an integer. At even money, where the sums and quotients met are floats
  themselves, both \<open>+100\<close> and \<open>-100\<close> give the probability \<open>1/2\<close>, and \<open>1/2\<close>
  is priced as the favourite: \<open>-100\<close>.
\<close>

theorem round_trip_up_to_rounding:
  assumes "rounds_to_nearest fl"
  shows "(100 + 1/1000 \<le> \<bar>x\<bar> \<and> \<bar>x\<bar> \<le> 1000000 \<longrightarrow>
            (\<exists>p n. american_to_prob_fl fl (Some (Fin x)) = Inr (Some (Fin p)) \<and> 0 < p \<and> p < 1 \<and>
                    prob_to_american fl (Some (Fin p)) = Inr (Some n) \<and>
                    \<bar>real_of_int n - x\<bar> \<le> 1/2 + 1/1000 \<and> (\<forall>j. x = of_int j \<longrightarrow> n = j)) \<and>
            (\<exists>p n. american_to_implied_fl fl (Fin x) = Inr (Fin p) \<and> 0 < p \<and> p < 1 \<and>
                    prob_to_american_io fl p = Inr n \<and>
                    \<bar>real_of_int n - x\<bar> \<le> 1/2 + 1/1000 \<and> (\<forall>j. x = of_int j \<longrightarrow> n = j))) \<and>
         (fl 1 = 1 \<and> fl 2 = 2 \<and> fl 200 = 200 \<and> fl (1/2) = 1/2 \<and> fl (-100) = -100 \<longrightarrow>
            american_to_prob_fl fl (Some (Fin 100)) = Inr (Some (Fin (1/2))) \<and>
            american_to_prob_fl fl (Some (Fin (-100))) = Inr (Some (Fin (1/2))) \<and>
            prob_to_american fl (Some (Fin (1/2))) = Inr (Some (-100)) \<and>
            american_to_implied_fl fl (Fin 100) = Inr (Fin (1/2)) \<and>
            american_to_implied_fl fl (Fin (-100)) = Inr (Fin (1/2)) \<and>
            prob_to_american_io fl (1/2) = Inr (-100))"
  using round_trip_core [OF assms, of x] round_trip_io [OF assms, of x] even_money [OF assms]
  by blast

lemma american_to_prob_fl_exact: "american_to_prob_fl (\<lambda>y. y) v = Inr (american_to_prob v)"
proof (cases v)
  case None
  then show ?thesis by simp
next
  case (Some f)
  then show ?thesis by (cases f) (auto simp: Let_def)
qed

lemma american_to_implied_fl_exact: "american_to_implied_fl (\<lambda>y. y) v = american_to_implied v"
  by (cases v) simp_all

lemma rounds_to_nearest_at_2e9: "rounds_to_nearest fl_at_2e9"
  unfolding rounds_to_nearest_def fl_at_2e9_def by simp

theorem round_trip_up_to_rounding_witness:
  "(\<exists>p n. american_to_prob_fl (\<lambda>y. y * (1 + 1 / 2 ^ 54)) (Some (Fin (-130))) =
            Inr (Some (Fin p)) \<and> 0 < p \<and> p < 1 \<and>
          prob_to_american (\<lambda>y. y * (1 + 1 / 2 ^ 54)) (Some (Fin p)) = Inr (Some n) \<and>
          n = -130) \<and>
   (\<exists>p n. american_to_implied_fl (\<lambda>y. y * (1 + 1 / 2 ^ 54)) (Fin (-130)) = Inr (Fin p) \<and>
          0 < p \<and> p < 1 \<and>
          prob_to_american_io (\<lambda>y. y * (1 + 1 / 2 ^ 54)) p = Inr n \<and> n = -130)"
proof -
  let ?fl = "\<lambda>y::real. y * (1 + 1 / 2 ^ 54)"
  have r: "rounds_to_nearest ?fl"
    unfolding rounds_to_nearest_def by (simp add: algebra_simps abs_mult)
  have x: "100 + 1/1000 \<le> \<bar>-130::real\<bar> \<and> \<bar>-130::real\<bar> \<le> 1000000" by simp
  note t = round_trip_up_to_rounding [OF r, of "-130"]
  obtain p n where a:
    "american_to_prob_fl ?fl (Some (Fin (-130))) = Inr (Some (Fin p))" "0 < p" "p < 1"
    "prob_to_american ?fl (Some (Fin p)) = Inr (Some n)"
    "\<forall>j. (-130::real) = of_int j \<longrightarrow> n = j"
    using t x by blast
  from a(5) have an: "n = -130" by (metis of_int_minus of_int_numeral)
  obtain q m where b:
    "american_to_implied_fl ?fl (Fin (-130)) = Inr (Fin q)" "0 < q" "q < 1"
    "prob_to_american_io ?fl q = Inr m"
    "\<forall>j. (-130::real) = of_int j \<longrightarrow> m = j"
    using t x by blast
  from b(5) have bm: "m = -130" by (metis of_int_minus of_int_numeral)
  show ?thesis using a(1-4) an b(1-4) bm by blast
qed

text \<open>
  The round trip as stated fails at even money, where \<open>+100\<close> comes back as
  \<open>-100\<close> (every value met there is a float, so no rounding takes part). It fails
  for large prices: with the binary64 roundings \<open>fl_at_2e9\<close> the price
  \<open>-2000000000\<close> of \<^verbatim>\<open>src/model/core.py\<close> comes back as \<open>-2000000001\<close>, and in
  \<^verbatim>\<open>model/io.py\<close> the clamp of the probability sends \<open>+1000000000\<close> back as
  \<open>99999900\<close>, already in exact arithmetic.
\<close>

theorem round_trip_counterexample:
  "american_to_prob_fl (\<lambda>y. y) (Some (Fin 100)) = Inr (Some (Fin (1/2))) \<and>
   prob_to_american (\<lambda>y. y) (Some (Fin (1/2))) = Inr (Some (-100)) \<and>
   american_to_implied_fl (\<lambda>y. y) (Fin 100) = Inr (Fin (1/2)) \<and>
   prob_to_american_io (\<lambda>y. y) (1/2) = Inr (-100) \<and>
   rounds_to_nearest fl_at_2e9 \<and>
   american_to_prob_fl fl_at_2e9 (Some (Fin (-2000000000))) =
     Inr (Some (Fin (2251799701095263 / 2251799813685248))) \<and>
   prob_to_american fl_at_2e9 (Some (Fin (2251799701095263 / 2251799813685248))) =
     Inr (Some (-2000000001)) \<and>
   american_to_implied_fl (\<lambda>y. y) (Fin 1000000000) = Inr (Fin (1/10000001)) \<and>
   prob_to_american_io (\<lambda>y. y) (1/10000001) = Inr 99999900"
proof -
  have a: "american_to_prob_fl (\<lambda>y. y) (Some (Fin 100)) = Inr (Some (Fin (1/2)))"
    "american_to_implied_fl (\<lambda>y. y) (Fin 100) = Inr (Fin (1/2))"
    "american_to_implied_fl (\<lambda>y. y) (Fin 1000000000) = Inr (Fin (1/10000001))"
    by simp_all
  have b: "prob_to_american (\<lambda>y. y) (Some (Fin (1/2))) = Inr (Some (-100))"
    "prob_to_american_io (\<lambda>y. y) (1/2) = Inr (-100)"
    "prob_to_american_io (\<lambda>y. y) (1/10000001) = Inr 99999900"
    by (simp_all add: prob_to_american_io_def py_round_def)
  have c: "american_to_prob_fl fl_at_2e9 (Some (Fin (-2000000000))) =
     Inr (Some (Fin (2251799701095263 / 2251799813685248)))"
    by (simp add: fl_at_2e9_def)
  have d: "prob_to_american fl_at_2e9 (Some (Fin (2251799701095263 / 2251799813685248))) =
     Inr (Some (-2000000001))"
    by (simp add: fl_at_2e9_def py_round_def)
  show ?thesis using a b c d rounds_to_nearest_at_2e9 by simp
qed

lemma kelly_fraction_nonzero:
  "price \<noteq> 0 \<Longrightarrow> kelly_fraction p price =
     Inr (max 0 ((profit_multiplier price * p - (1 - p)) / profit_multiplier price))"
  by (simp add: kelly_fraction_def profit_multiplier_def Let_def)

lemma profit_multiplier_pos: "price \<noteq> 0 \<Longrightarrow> 0 < profit_multiplier price"
  by (simp add: profit_multiplier_def)

lemma implied_of_multiplier:
  "price \<noteq> 0 \<Longrightarrow> american_to_implied (Fin price) = Inr (Fin (1 / (1 + profit_multiplier price)))"
  by (simp add: profit_multiplier_def)

lemma fair_bet_zero: "0 < b \<Longrightarrow> (b * (1 / (1 + b)) - (1 - 1 / (1 + b))) / b = (0::real)"
  by (simp add: field_simps)

text \<open>
  Claim C5, as the code has it. For every probability \<open>p\<close> and every American price other than 0, with
  \<open>b\<close> the decimal profit multiplier of the price, the capped stake of
  \<^verbatim>\<open>eval_yardage\<close> is \<open>min(cap, max(0, (b\<cdot>p - (1 - p)) / b))\<close>. It never exceeds the
  cap, and for a cap that is not negative it is never negative and is 0 for a fair
  bet, that is when \<open>p\<close> is the implied probability of the price. (At price 0 the
  multiplier is undefined and the code raises \<^verbatim>\<open>ZeroDivisionError\<close>.)
\<close>

theorem kelly_capped_spec:
  assumes "price \<noteq> 0"
  shows "kelly_capped cap p price = Inr (spec_kelly cap p price) \<and>
         spec_kelly cap p price \<le> cap \<and>
         (0 \<le> cap \<longrightarrow> 0 \<le> spec_kelly cap p price) \<and>
         (0 \<le> cap \<longrightarrow> american_to_implied (Fin price) = Inr (Fin p) \<longrightarrow>
            spec_kelly cap p price = 0)"
proof -
  define b where "b = profit_multiplier price"
  have b: "0 < b" unfolding b_def by (rule profit_multiplier_pos [OF assms])
  have k: "kelly_capped cap p price = Inr (spec_kelly cap p price)"
    by (simp add: kelly_capped_def kelly_fraction_nonzero [OF assms] spec_kelly_def Let_def
        min.commute)
  have le: "spec_kelly cap p price \<le> cap" by (simp add: spec_kelly_def Let_def)
  have ge: "0 \<le> spec_kelly cap p price" if "0 \<le> cap"
    using that by (simp add: spec_kelly_def Let_def)
  have fair: "spec_kelly cap p price = 0"
    if "0 \<le> cap" "american_to_implied (Fin price) = Inr (Fin p)"
  proof -
    have "p = 1 / (1 + b)" using that(2) implied_of_multiplier [OF assms] by (simp add: b_def)
    then have "(b * p - (1 - p)) / b = 0" using fair_bet_zero [OF b] by simp
    moreover have "spec_kelly cap p price = min cap (max 0 ((b * p - (1 - p)) / b))"
      by (simp add: spec_kelly_def Let_def b_def)
    ultimately have "spec_kelly cap p price = min cap (max 0 0)" by (simp only:)
    then show ?thesis using that(1) by simp
  qed
  show ?thesis using k le ge fair by blast
qed

theorem kelly_capped_spec_witness:
  "kelly_capped (1/20) (3/5) (-120) = Inr (1/20) \<and>
   american_to_implied (Fin (-120)) = Inr (Fin (6/11)) \<and>
   kelly_capped (1/20) (6/11) (-120) = Inr 0 \<and>
   kelly_capped (1/20) (21/50) 150 = Inr (1/30)"
proof -
  have a: "spec_kelly (1/20) (3/5) (-120) = 1/20" "spec_kelly (1/20) (21/50) 150 = 1/30"
    by (simp_all add: spec_kelly_def profit_multiplier_def)
  have b: "american_to_implied (Fin (-120)) = Inr (Fin (6/11))" by simp
  show ?thesis
    using kelly_capped_spec [of "-120" "1/20" "3/5"] kelly_capped_spec [of "-120" "1/20" "6/11"]
      kelly_capped_spec [of 150 "1/20" "21/50"] a b
    by simp
qed

text \<open>
  The ceiling is taken as configured. With a negative ceiling the stake is negative,
  for a bet with an edge and for a fair bet alike.
\<close>

theorem kelly_capped_counterexample:
  "kelly_capped (-1/100) (3/5) (-120) = Inr (-1/100) \<and>
   american_to_implied (Fin (-120)) = Inr (Fin (6/11)) \<and>
   kelly_capped (-1/100) (6/11) (-120) = Inr (-1/100)"
  by (simp add: kelly_capped_def kelly_fraction_def)

text \<open>
  Claim C6. For every mean, standard deviation and line, both pricers return
  \<open>p_under\<close> as the Normal distribution function at the line, with the given mean and
  with the standard deviation floored at \<open>1e-6\<close> (the floor changes nothing from
  \<open>1e-6\<close> upwards), and \<open>p_over = 1 - p_under\<close>; so the two sum to 1, and both
  lie in \<open>[0, 1]\<close> since the standard Normal distribution function does.
\<close>

theorem yardage_probs_normal:
  assumes "\<forall>z. 0 \<le> norm_cdf z \<and> norm_cdf z \<le> 1"
  shows "\<exists>p_over p_under.
           yardage_probs norm_cdf mean sd line = (p_over, p_under) \<and>
           run_probs norm_cdf mean sd line = (p_over, p_under) \<and>
           p_under = norm_cdf_loc_scale norm_cdf line mean (max sd (1/1000000)) \<and>
           (1/1000000 \<le> sd \<longrightarrow> p_under = norm_cdf_loc_scale norm_cdf line mean sd) \<and>
           p_over = 1 - p_under \<and> p_over + p_under = 1 \<and>
           0 \<le> p_under \<and> p_under \<le> 1 \<and> 0 \<le> p_over \<and> p_over \<le> 1"
proof -
  define n where "n = norm_cdf_loc_scale norm_cdf line mean (max sd (1/1000000))"
  have y: "yardage_probs norm_cdf mean sd line = (1 - n, n)"
    by (simp add: yardage_probs_def n_def norm_cdf_loc_scale_def Let_def)
  have r: "run_probs norm_cdf mean sd line = (1 - n, n)"
    by (simp add: run_probs_def n_def Let_def)
  have f: "n = norm_cdf_loc_scale norm_cdf line mean sd" if "1/1000000 \<le> sd"
  proof -
    have "max sd (1/1000000) = sd" using that by (rule max_absorb1)
    then show ?thesis by (simp only: n_def)
  qed
  have b: "0 \<le> n" "n \<le> 1" using assms by (simp_all add: n_def norm_cdf_loc_scale_def)
  show ?thesis using y r f b n_def by (intro exI [of _ "1 - n"] exI [of _ n]) simp
qed

theorem yardage_probs_normal_witness:
  "yardage_probs (\<lambda>z. min 1 (max 0 (1/2 + z/4))) 60 20 (111/2) = (89/160, 71/160) \<and>
   run_probs (\<lambda>z. min 1 (max 0 (1/2 + z/4))) 60 20 (111/2) = (89/160, 71/160)"
proof -
  have h: "\<forall>z::real. 0 \<le> min 1 (max 0 (1/2 + z/4)) \<and> min 1 (max 0 (1/2 + z/4)) \<le> 1"
    by simp
  have v: "norm_cdf_loc_scale (\<lambda>z. min 1 (max 0 (1/2 + z/4))) (111/2) 60 (max 20 (1/1000000))
             = 71/160"
    by (simp add: norm_cdf_loc_scale_def)
  show ?thesis using yardage_probs_normal [OF h, of 60 20 "111/2"] v by auto
qed

lemma weather_penalty_product:
  "weather_penalty temp_f wind_mph vol =
     (if (case wind_mph of None \<Rightarrow> False | Some w \<Rightarrow> wind_threshold_mph vol \<le> w)
      then 1 + wind_sd_widen vol else 1) *
     (if (case temp_f of None \<Rightarrow> False | Some t \<Rightarrow> t \<le> cold_threshold_f vol)
      then 1 + cold_sd_widen vol else 1)"
  by (simp add: weather_penalty_def Let_def)

lemma adjusted_mu_sd_present:
  assumes "r_mean row = Some mu" "r_sd row = Some sd"
  shows "adjusted_mu_sd row mods vol =
           (Some (spec_adjusted_mean mu row mods), Some (spec_adjusted_sd sd row mods vol))"
proof -
  have m: "mu * (1 * dict_get (pace mods) (upper (r_team row)) 1 *
                 dict_get (proe mods) (upper (r_team row)) 1 *
                 dict_get (off_epa mods) (upper (r_team row)) 1 *
                 row_get (r_snap_adj row) 1 * row_get (r_share_adj row) 1)
           = spec_adjusted_mean mu row mods"
    by (simp add: spec_adjusted_mean_def pace_multiplier_def play_rate_multiplier_def
        efficiency_multiplier_def snap_adjustment_def target_share_adjustment_def mult.assoc)
  have s: "widen_for_low_qb
             (if contains ''passing'' (lower (r_market row))
              then upper (r_player row) \<in> low_tier_qb mods else False)
             (widen_for_pressure (upper (row_get (r_opp row) []) \<in> top10_pressure mods)
                (sd * weather_penalty (row_get (r_temp_f row) (Some 55))
                        (row_get (r_wind_mph row) (Some 0)) vol) vol) vol
           = spec_adjusted_sd sd row mods vol"
    by (simp add: spec_adjusted_sd_def widen_for_low_qb_def widen_for_pressure_def
        weather_penalty_product wind_at_least_def temperature_at_most_def
        opponent_top_tier_pass_rush_def passing_market_def player_low_tier_def)
  show ?thesis
    using assms m s by (simp add: adjusted_mu_sd_def Let_def)
qed

lemma adjusted_mu_sd_absent:
  assumes "r_mean row = None \<or> r_sd row = None"
  shows "adjusted_mu_sd row mods vol = (None, None)"
  using assms by (auto simp: adjusted_mu_sd_def split: option.splits)

text \<open>
  Claim C2. For every row whose mean and standard deviation are available,
  \<open>adjusted_mu_sd\<close> returns the mean times the pace, play-rate and efficiency
  multipliers of the team and the snap and target-share adjustments (each 1 when
  unknown), and the standard deviation times \<open>1 + wind_widen\<close> when the wind is at
  least its threshold, times \<open>1 + cold_widen\<close> when the temperature is at most its
  threshold, times \<open>1 + pressure_widen\<close> when the opponent is a top-tier pass rush,
  times \<open>1 + qb_widen\<close> only when the market is a passing market and the player is
  flagged low-tier, in this order. When the mean or the standard deviation is
  missing it returns the pair of absent values.
\<close>

theorem adjusted_mu_sd_spec:
  "(r_mean row = Some mu \<longrightarrow> r_sd row = Some sd \<longrightarrow>
      adjusted_mu_sd row mods vol =
        (Some (spec_adjusted_mean mu row mods), Some (spec_adjusted_sd sd row mods vol))) \<and>
   (r_mean row = None \<or> r_sd row = None \<longrightarrow> adjusted_mu_sd row mods vol = (None, None))"
  using adjusted_mu_sd_present adjusted_mu_sd_absent by blast


theorem adjusted_mu_sd_spec_witness:
  "adjusted_mu_sd
     \<lparr>r_mean = Some 60, r_sd = Some 20, r_team = ''kc'', r_player = ''p. mahomes'',
      r_market = ''Passing Yards'', r_snap_adj = Some (9/10), r_share_adj = None,
      r_temp_f = Some (Some 20), r_wind_mph = Some (Some 18), r_opp = Some ''buf''\<rparr>
     \<lparr>pace = [''KC'' \<mapsto> 21/20], proe = Map.empty, off_epa = [''KC'' \<mapsto> 51/50],
      top10_pressure = {''BUF''}, low_tier_qb = {''P. MAHOMES''}\<rparr>
     \<lparr>wind_threshold_mph = 15, wind_sd_widen = 1/20, cold_threshold_f = 32,
      cold_sd_widen = 3/100, widen_sd_if_pressure_top10 = 1/25,
      widen_sd_if_qb_lowtier = 3/50\<rparr>
   = (Some (28917/500), Some (2980614/125000)) \<and>
   adjusted_mu_sd
     \<lparr>r_mean = None, r_sd = Some 20, r_team = ''kc'', r_player = ''p. mahomes'',
      r_market = ''Passing Yards'', r_snap_adj = Some (9/10), r_share_adj = None,
      r_temp_f = Some (Some 20), r_wind_mph = Some (Some 18), r_opp = Some ''buf''\<rparr>
     \<lparr>pace = [''KC'' \<mapsto> 21/20], proe = Map.empty, off_epa = [''KC'' \<mapsto> 51/50],
      top10_pressure = {''BUF''}, low_tier_qb = {''P. MAHOMES''}\<rparr>
     \<lparr>wind_threshold_mph = 15, wind_sd_widen = 1/20, cold_threshold_f = 32,
      cold_sd_widen = 3/100, widen_sd_if_pressure_top10 = 1/25,
      widen_sd_if_qb_lowtier = 3/50\<rparr>
   = (None, None)"
proof -
  let ?row = "\<lparr>r_mean = Some 60, r_sd = Some 20, r_team = ''kc'', r_player = ''p. mahomes'',
      r_market = ''Passing Yards'', r_snap_adj = Some (9/10), r_share_adj = None,
      r_temp_f = Some (Some 20), r_wind_mph = Some (Some 18), r_opp = Some ''buf''\<rparr>"
  let ?nomean = "\<lparr>r_mean = None, r_sd = Some 20, r_team = ''kc'', r_player = ''p. mahomes'',
      r_market = ''Passing Yards'', r_snap_adj = Some (9/10), r_share_adj = None,
      r_temp_f = Some (Some 20), r_wind_mph = Some (Some 18), r_opp = Some ''buf''\<rparr>"
  let ?mods = "\<lparr>pace = [''KC'' \<mapsto> 21/20], proe = Map.empty, off_epa = [''KC'' \<mapsto> 51/50],
      top10_pressure = {''BUF''}, low_tier_qb = {''P. MAHOMES''}\<rparr>"
  let ?vol = "\<lparr>wind_threshold_mph = 15, wind_sd_widen = 1/20, cold_threshold_f = 32,
      cold_sd_widen = 3/100, widen_sd_if_pressure_top10 = 1/25,
      widen_sd_if_qb_lowtier = 3/50\<rparr>"
  have u: "upper ''kc'' = ''KC''" "upper ''buf'' = ''BUF''" "upper ''p. mahomes'' = ''P. MAHOMES''"
    by (simp_all add: upper_def upper_char_def)
  have l: "contains ''passing'' (lower ''Passing Yards'')"
    by (simp add: lower_def lower_char_def)
  have m: "spec_adjusted_mean 60 ?row ?mods = 28917/500"
    by (simp add: spec_adjusted_mean_def pace_multiplier_def play_rate_multiplier_def
        efficiency_multiplier_def snap_adjustment_def target_share_adjustment_def
        dict_get_def row_get_def u)
  have s: "spec_adjusted_sd 20 ?row ?mods ?vol = 2980614/125000"
    by (simp add: spec_adjusted_sd_def wind_at_least_def temperature_at_most_def
        opponent_top_tier_pass_rush_def passing_market_def player_low_tier_def
        row_get_def u l)
  have a: "adjusted_mu_sd ?row ?mods ?vol =
             (Some (spec_adjusted_mean 60 ?row ?mods), Some (spec_adjusted_sd 20 ?row ?mods ?vol))"
    using adjusted_mu_sd_spec [of ?row 60 20 ?mods ?vol] by simp
  have b: "adjusted_mu_sd ?nomean ?mods ?vol = (None, None)"
    using adjusted_mu_sd_spec [of ?nomean 60 20 ?mods ?vol] by simp
  show ?thesis by (simp only: a b m s)
qed

lemma df_head_subset: "set (df_head n df) \<subseteq> set df"
  by (auto simp: df_head_def dest: in_set_takeD)

lemma df_head_Nil: "df_head n [] = []"
  by (simp add: df_head_def)

lemma df_head_40_empty: "df_head 40 df = [] \<longleftrightarrow> df = []"
  by (simp add: df_head_def)

lemma set_sort_values_desc: "set (sort_values_desc df) = set df"
  by (simp add: sort_values_desc_def)

lemma sort_values_desc_empty: "sort_values_desc df = [] \<longleftrightarrow> df = []"
proof -
  have "length (sort_values_desc df) = length df" by (simp add: sort_values_desc_def)
  then show ?thesis by (metis length_0_conv)
qed

lemma pool_empty:
  "pool pred_df b = [] \<longleftrightarrow> (\<forall>r\<in>set pred_df. \<not> edge_at_least (min_edge b) r)"
  by (simp add: pool_def df_head_40_empty sort_values_desc_empty filter_empty_conv)

lemma pool_member:
  "r \<in> set (pool pred_df b) \<Longrightarrow> r \<in> set pred_df \<and> edge_at_least (min_edge b) r"
  using df_head_subset [of 40 "sort_values_desc (filter (edge_at_least (min_edge b)) pred_df)"]
  by (auto simp: pool_def set_sort_values_desc)

lemma edge_at_least_iff:
  "edge_at_least t r \<longleftrightarrow> (\<exists>e. edge_pct r = Some e \<and> t \<le> e)"
  by (simp add: edge_at_least_def split: option.splits)

text \<open>
  Claim C4. For every configured bucket in which no row of the priced frame has an
  edge that meets the bucket's threshold, \<open>build_parlays\<close> emits, at the bucket's
  position among as many rows as there are buckets, the fully populated row with
  probability 0, decimal odds 1 and expected value \<open>-1\<close>.
\<close>

theorem empty_bucket_sentinel:
  assumes "i < length (buckets cfg)"
    and "\<forall>r\<in>set pred_df. \<forall>e. edge_pct r = Some e \<longrightarrow> e < min_edge (buckets cfg ! i)"
  shows "length (build_parlays pred_df cfg) = length (buckets cfg) \<and>
         build_parlays pred_df cfg ! i =
           \<lparr>bucket = b_name (buckets cfg ! i), legs = [], parlay_prob = 0,
            decimal_odds = 1, ev_per_unit = -1\<rparr>"
proof -
  have "\<forall>r\<in>set pred_df. \<not> edge_at_least (min_edge (buckets cfg ! i)) r"
    using assms(2) by (fastforce simp: edge_at_least_iff)
  then have "pool pred_df (buckets cfg ! i) = []" by (simp add: pool_empty)
  then show ?thesis using assms(1) by (simp add: build_parlays_def build_bucket_def Let_def)
qed

text \<open>
  Claim C9. The threshold applied to the \<open>edge_pct\<close> column is 100 times the
  configured \<open>min_edge_pct\<close> when that is below 1, and the configured value itself
  otherwise: every row of the pool comes from the frame with an edge of at least this
  threshold, and the pool is empty exactly when every edge in the frame is below it.
\<close>

theorem min_edge_rescaled:
  "(min_edge_pct b < 1 \<longrightarrow> min_edge b = 100 * min_edge_pct b) \<and>
   (1 \<le> min_edge_pct b \<longrightarrow> min_edge b = min_edge_pct b) \<and>
   (\<forall>r\<in>set (pool pred_df b). r \<in> set pred_df \<and> (\<exists>e. edge_pct r = Some e \<and> min_edge b \<le> e)) \<and>
   (pool pred_df b = [] \<longleftrightarrow>
      (\<forall>r\<in>set pred_df. \<forall>e. edge_pct r = Some e \<longrightarrow> e < min_edge b))"
proof -
  have a: "min_edge_pct b < 1 \<longrightarrow> min_edge b = 100 * min_edge_pct b"
    by (simp add: min_edge_def)
  have b: "1 \<le> min_edge_pct b \<longrightarrow> min_edge b = min_edge_pct b"
    by (simp add: min_edge_def)
  have c: "\<forall>r\<in>set (pool pred_df b). r \<in> set pred_df \<and> (\<exists>e. edge_pct r = Some e \<and> min_edge b \<le> e)"
    using pool_member [of _ pred_df b] by (simp add: edge_at_least_iff)
  have d: "pool pred_df b = [] \<longleftrightarrow>
      (\<forall>r\<in>set pred_df. \<forall>e. edge_pct r = Some e \<longrightarrow> e < min_edge b)"
    unfolding pool_empty edge_at_least_iff by (auto simp: not_le)
  show ?thesis using a b c d by blast
qed


lemmas example_rows = leg_a_def leg_b_def leg_sure_def
lemmas example_buckets = bucket_all_def bucket_two_pct_def bucket_strict_def bucket_no_legs_def


lemma pool_all: "pool [leg_b, leg_a] bucket_all = [leg_a, leg_b]"
  by (simp add: pool_def sort_values_desc_def df_head_def min_edge_def edge_at_least_def
      example_rows example_buckets)

lemma pool_two: "pool [leg_b, leg_a, leg_sure] bucket_two_pct = [leg_sure, leg_a]"
  by (simp add: pool_def sort_values_desc_def df_head_def min_edge_def edge_at_least_def
      example_rows example_buckets)

lemma scenario_row:
  "build_bucket (95/100) [leg_b, leg_a] bucket_all =
     \<lparr>bucket = ''all'',
      legs = ''A receiving_yards Over 55.5 (100) | B rushing_yards Under 70.5 (-125)'',
      parlay_prob = 19855/80000, decimal_odds = 18/5, ev_per_unit = -4261/40000\<rparr>"
  by (simp add: build_bucket_def chosen_legs_def pool_all Let_def)
     (simp add: df_head_def clip_def leg_text_def example_rows example_buckets)


theorem empty_bucket_sentinel_witness:
  "build_parlays [leg_b, leg_a, leg_sure]
     \<lparr>correlation_penalty = 95/100, buckets = [bucket_two_pct, bucket_strict]\<rparr> ! 1 =
     \<lparr>bucket = ''strict'', legs = [], parlay_prob = 0, decimal_odds = 1, ev_per_unit = -1\<rparr> \<and>
   length (build_parlays [leg_b, leg_a, leg_sure]
     \<lparr>correlation_penalty = 95/100, buckets = [bucket_two_pct, bucket_strict]\<rparr>) = 2"
proof -
  let ?cfg = "\<lparr>correlation_penalty = 95/100, buckets = [bucket_two_pct, bucket_strict]\<rparr>"
  have i: "1 < length (buckets ?cfg)" by simp
  have e: "\<forall>r\<in>set [leg_b, leg_a, leg_sure]. \<forall>e. edge_pct r = Some e \<longrightarrow>
             e < min_edge (buckets ?cfg ! 1)"
    by (simp add: min_edge_def example_rows example_buckets)
  have n: "b_name (buckets ?cfg ! 1) = ''strict''" by (simp add: example_buckets)
  show ?thesis using empty_bucket_sentinel [OF i e] n by simp
qed

theorem min_edge_rescaled_witness:
  "min_edge bucket_two_pct = 2 \<and> min_edge bucket_strict = 20 \<and>
   pool [leg_b, leg_a, leg_sure] bucket_two_pct = [leg_sure, leg_a] \<and>
   pool [leg_b, leg_a, leg_sure] bucket_strict = []"
proof -
  have a: "min_edge_pct bucket_two_pct < 1" "min_edge_pct bucket_two_pct = 1/50"
    "1 \<le> min_edge_pct bucket_strict" "min_edge_pct bucket_strict = 20"
    by (simp_all add: example_buckets)
  have m: "min_edge bucket_two_pct = 2" "min_edge bucket_strict = 20"
    using min_edge_rescaled [of bucket_two_pct "[]"] min_edge_rescaled [of bucket_strict "[]"] a
    by simp_all
  have e: "\<forall>r\<in>set [leg_b, leg_a, leg_sure]. \<forall>e. edge_pct r = Some e \<longrightarrow> e < 20"
    by (simp add: example_rows)
  have p: "pool [leg_b, leg_a, leg_sure] bucket_strict = []"
    using min_edge_rescaled [of bucket_strict "[leg_b, leg_a, leg_sure]"] e m by simp
  show ?thesis using m p pool_two by simp
qed

lemma build_bucket_nonempty:
  "pool pred_df b \<noteq> [] \<Longrightarrow>
     build_bucket pen pred_df b =
       \<lparr>bucket = b_name b, legs = join '' | '' (map leg_text (chosen_legs pred_df b)),
        parlay_prob =
          prod_list (map (\<lambda>r. clip (1/1000) (999/1000) (side_prob r) * pen)
                       (chosen_legs pred_df b)),
        decimal_odds = prod_list (map pred_row.decimal_odds (chosen_legs pred_df b)),
        ev_per_unit =
          prod_list (map (\<lambda>r. clip (1/1000) (999/1000) (side_prob r) * pen)
                       (chosen_legs pred_df b)) *
          prod_list (map pred_row.decimal_odds (chosen_legs pred_df b)) - 1\<rparr>"
  by (simp add: build_bucket_def Let_def)

lemma clip_id: "lo \<le> x \<Longrightarrow> x \<le> hi \<Longrightarrow> clip lo hi x = x"
  by (simp add: clip_def)

lemma clip_range: "lo \<le> hi \<Longrightarrow> lo \<le> clip lo hi x \<and> clip lo hi x \<le> hi"
  by (auto simp: clip_def)

lemma prod_clip_id:
  "\<forall>r\<in>set xs. lo \<le> side_prob r \<and> side_prob r \<le> hi \<Longrightarrow>
     prod_list (map (\<lambda>r. clip lo hi (side_prob r) * pen) xs) =
     prod_list (map (\<lambda>r. side_prob r * pen) xs)"
  by (induction xs) (simp_all add: clip_id)

text \<open>
  Claim C3, as the code has it. For every bucket whose pool is not empty, the
  combined probability is the product over the chosen legs of the leg's probability,
  clipped to \<open>[0.001, 0.999]\<close>, times the correlation penalty, which is the product
  of probability times penalty when every leg's probability lies in that interval;
  the combined decimal odds are the product of the legs' decimal odds; and the
  expected value per unit is the combined probability times the combined odds
  minus 1. For the scenario of two legs with decimal odds 2.0 and 1.8, probabilities
  0.55 and 0.5 and penalty 0.95 this gives probability 0.2481875, odds 3.6 and
  expected value \<open>-0.106525\<close>.
\<close>

theorem parlay_product:
  assumes "pool pred_df b \<noteq> []"
  shows "parlay_prob (build_bucket pen pred_df b) =
           prod_list (map (\<lambda>r. clip (1/1000) (999/1000) (side_prob r) * pen)
                        (chosen_legs pred_df b)) \<and>
         parlay_row.decimal_odds (build_bucket pen pred_df b) =
           prod_list (map pred_row.decimal_odds (chosen_legs pred_df b)) \<and>
         ev_per_unit (build_bucket pen pred_df b) =
           parlay_prob (build_bucket pen pred_df b) *
           parlay_row.decimal_odds (build_bucket pen pred_df b) - 1 \<and>
         ((\<forall>r\<in>set (chosen_legs pred_df b). 1/1000 \<le> side_prob r \<and> side_prob r \<le> 999/1000) \<longrightarrow>
            parlay_prob (build_bucket pen pred_df b) =
              prod_list (map (\<lambda>r. side_prob r * pen) (chosen_legs pred_df b)))"
proof -
  note row = build_bucket_nonempty [OF assms, of pen]
  have a: "parlay_prob (build_bucket pen pred_df b) =
           prod_list (map (\<lambda>r. clip (1/1000) (999/1000) (side_prob r) * pen)
                        (chosen_legs pred_df b))"
    by (simp add: row)
  have b: "parlay_row.decimal_odds (build_bucket pen pred_df b) =
           prod_list (map pred_row.decimal_odds (chosen_legs pred_df b))"
    by (simp add: row)
  have c: "ev_per_unit (build_bucket pen pred_df b) =
           parlay_prob (build_bucket pen pred_df b) *
           parlay_row.decimal_odds (build_bucket pen pred_df b) - 1"
    by (simp add: row)
  have d: "parlay_prob (build_bucket pen pred_df b) =
              prod_list (map (\<lambda>r. side_prob r * pen) (chosen_legs pred_df b))"
    if "\<forall>r\<in>set (chosen_legs pred_df b). 1/1000 \<le> side_prob r \<and> side_prob r \<le> 999/1000"
    unfolding a by (rule prod_clip_id [OF that])
  show ?thesis using a b c d by blast
qed

theorem parlay_product_witness:
  "build_bucket (95/100) [leg_b, leg_a] bucket_all =
     \<lparr>bucket = ''all'',
      legs = ''A receiving_yards Over 55.5 (100) | B rushing_yards Under 70.5 (-125)'',
      parlay_prob = 19855/80000, decimal_odds = 18/5, ev_per_unit = -4261/40000\<rparr> \<and>
   parlay_prob (build_bucket (95/100) [leg_b, leg_a] bucket_all) =
     (55/100 * (95/100)) * (1/2 * (95/100))"
proof -
  have p: "pool [leg_b, leg_a] bucket_all \<noteq> []" by (simp add: pool_all)
  have mx: "max_legs bucket_all = 2" by (simp add: example_buckets)
  have c: "chosen_legs [leg_b, leg_a] bucket_all = [leg_a, leg_b]"
    by (simp add: chosen_legs_def pool_all df_head_def mx)
  have r: "\<forall>r\<in>set (chosen_legs [leg_b, leg_a] bucket_all).
             1/1000 \<le> side_prob r \<and> side_prob r \<le> 999/1000"
    unfolding c by (simp add: example_rows)
  have "parlay_prob (build_bucket (95/100) [leg_b, leg_a] bucket_all) =
          prod_list (map (\<lambda>r. side_prob r * (95/100)) (chosen_legs [leg_b, leg_a] bucket_all))"
    using parlay_product [OF p, of "95/100"] r by blast
  then have "parlay_prob (build_bucket (95/100) [leg_b, leg_a] bucket_all) =
          (55/100 * (95/100)) * (1/2 * (95/100))"
    unfolding c by (simp add: example_rows)
  then show ?thesis using scenario_row by simp
qed

text \<open>
  The scenario's combined probability is 0.2481875 and not 0.2484, and its expected
  value is \<open>-0.106525\<close>; and a single leg with recorded probability 1 and penalty 0.95
  gives 0.999 \<open>\<cdot>\<close> 0.95 and not 1 \<open>\<cdot>\<close> 0.95.
\<close>

theorem parlay_product_counterexample:
  "parlay_prob (build_bucket (95/100) [leg_b, leg_a] bucket_all) = 19855/80000 \<and>
   parlay_prob (build_bucket (95/100) [leg_b, leg_a] bucket_all) \<noteq> 2484/10000 \<and>
   ev_per_unit (build_bucket (95/100) [leg_b, leg_a] bucket_all) = -106525/1000000 \<and>
   chosen_legs [leg_sure] bucket_two_pct = [leg_sure] \<and>
   side_prob leg_sure * (95/100) = 95/100 \<and>
   parlay_prob (build_bucket (95/100) [leg_sure] bucket_two_pct) = 94905/100000"
proof -
  have p: "pool [leg_sure] bucket_two_pct = [leg_sure]"
    by (simp add: pool_def sort_values_desc_def df_head_def min_edge_def edge_at_least_def
        example_rows example_buckets)
  have mx: "max_legs bucket_two_pct = 3" by (simp add: example_buckets)
  have c: "chosen_legs [leg_sure] bucket_two_pct = [leg_sure]"
    by (simp add: chosen_legs_def p df_head_def mx)
  have b: "parlay_prob (build_bucket (95/100) [leg_sure] bucket_two_pct) = 94905/100000"
    by (simp add: build_bucket_def p c Let_def) (simp add: clip_def example_rows)
  have s: "side_prob leg_sure * (95/100) = 95/100" by (simp add: example_rows)
  show ?thesis using scenario_row b c s by simp
qed


lemma prod_list_pos: "\<forall>x\<in>set xs. 0 < x \<Longrightarrow> 0 < prod_list xs" for xs :: "real list"
  by (induction xs) simp_all

lemma prod_list_le_one: "\<forall>x\<in>set xs. 0 < x \<and> x < 1 \<Longrightarrow> prod_list xs \<le> 1"
  for xs :: "real list"
proof (induction xs)
  case Nil
  then show ?case by simp
next
  case (Cons x xs)
  then have "0 < x" "x < 1" "prod_list xs \<le> 1" by simp_all
  moreover have "0 < prod_list xs" using Cons.prems by (intro prod_list_pos) simp
  ultimately have "x * prod_list xs \<le> 1 * 1" by (intro mult_mono) simp_all
  then show ?case by simp
qed

lemma prod_list_lt_one:
  "xs \<noteq> [] \<Longrightarrow> \<forall>x\<in>set xs. 0 < x \<and> x < 1 \<Longrightarrow> prod_list xs < 1" for xs :: "real list"
proof (cases xs)
  case Nil
  then show "xs \<noteq> [] \<Longrightarrow> ?thesis" by simp
next
  case (Cons x ys)
  assume h: "\<forall>x\<in>set xs. 0 < x \<and> x < 1"
  then have x: "0 < x" "x < 1" and ys: "\<forall>y\<in>set ys. 0 < y \<and> y < 1" using Cons by simp_all
  have "prod_list ys \<le> 1" using ys by (rule prod_list_le_one)
  then have "x * prod_list ys \<le> x * 1" using x(1) by (intro mult_left_mono) simp_all
  then show ?thesis using x(2) Cons by simp
qed

lemma leg_factor_bounds:
  assumes "0 < pen"
  shows "1/1000 \<le> clip (1/1000) (999/1000) p \<and> clip (1/1000) (999/1000) p \<le> 999/1000 \<and>
         1/1000 * pen \<le> clip (1/1000) (999/1000) p * pen \<and>
         clip (1/1000) (999/1000) p * pen \<le> 999/1000 * pen"
proof -
  have c: "1/1000 \<le> clip (1/1000) (999/1000) p" "clip (1/1000) (999/1000) p \<le> 999/1000"
    using clip_range [of "1/1000" "999/1000" p] by simp_all
  have "1/1000 * pen \<le> clip (1/1000) (999/1000) p * pen"
    using c(1) assms by (intro mult_right_mono) simp_all
  moreover have "clip (1/1000) (999/1000) p * pen \<le> 999/1000 * pen"
    using c(2) assms by (intro mult_right_mono) simp_all
  ultimately show ?thesis using c by blast
qed

text \<open>
  Claim C10, as the code has it. For every bucket whose pool is not empty and every
  penalty \<open>pen > 0\<close>, each leg's probability is clipped into \<open>[0.001, 0.999]\<close> before
  the penalty is applied, so each factor lies in \<open>[0.001\<cdot>pen, 0.999\<cdot>pen]\<close> and the
  combined probability is strictly positive, whatever the recorded probabilities;
  it is strictly below 1 when moreover \<open>pen \<le> 1\<close> and at least one leg is chosen.
\<close>

theorem parlay_prob_bounds:
  assumes "0 < pen" and "pool pred_df b \<noteq> []"
  shows "(\<forall>r\<in>set (chosen_legs pred_df b).
            1/1000 \<le> clip (1/1000) (999/1000) (side_prob r) \<and>
            clip (1/1000) (999/1000) (side_prob r) \<le> 999/1000 \<and>
            1/1000 * pen \<le> clip (1/1000) (999/1000) (side_prob r) * pen \<and>
            clip (1/1000) (999/1000) (side_prob r) * pen \<le> 999/1000 * pen) \<and>
         parlay_prob (build_bucket pen pred_df b) =
           prod_list (map (\<lambda>r. clip (1/1000) (999/1000) (side_prob r) * pen)
                        (chosen_legs pred_df b)) \<and>
         0 < parlay_prob (build_bucket pen pred_df b) \<and>
         (pen \<le> 1 \<longrightarrow> chosen_legs pred_df b \<noteq> [] \<longrightarrow>
            parlay_prob (build_bucket pen pred_df b) < 1)"
proof -
  define fs where
    "fs = map (\<lambda>r. clip (1/1000) (999/1000) (side_prob r) * pen) (chosen_legs pred_df b)"
  have a: "\<forall>r\<in>set (chosen_legs pred_df b).
            1/1000 \<le> clip (1/1000) (999/1000) (side_prob r) \<and>
            clip (1/1000) (999/1000) (side_prob r) \<le> 999/1000 \<and>
            1/1000 * pen \<le> clip (1/1000) (999/1000) (side_prob r) * pen \<and>
            clip (1/1000) (999/1000) (side_prob r) * pen \<le> 999/1000 * pen"
    using leg_factor_bounds [OF assms(1)] by blast
  have p: "parlay_prob (build_bucket pen pred_df b) = prod_list fs"
    by (simp add: build_bucket_nonempty [OF assms(2)] fs_def)
  have lo: "\<forall>x\<in>set fs. 1/1000 * pen \<le> x" and hi: "\<forall>x\<in>set fs. x \<le> 999/1000 * pen"
    using a by (auto simp: fs_def)
  have pos: "\<forall>x\<in>set fs. 0 < x"
  proof
    fix x assume "x \<in> set fs"
    then have "1/1000 * pen \<le> x" using lo by blast
    moreover have "0 < 1/1000 * pen" using assms(1) by simp
    ultimately show "0 < x" by linarith
  qed
  have gt: "0 < prod_list fs" using pos by (rule prod_list_pos)
  have lt: "prod_list fs < 1" if "pen \<le> 1" "chosen_legs pred_df b \<noteq> []"
  proof -
    have "fs \<noteq> []" using that(2) by (simp add: fs_def)
    moreover have "\<forall>x\<in>set fs. 0 < x \<and> x < 1"
    proof
      fix x assume x: "x \<in> set fs"
      then have "x \<le> 999/1000 * pen" using hi by blast
      moreover have "999/1000 * pen < 1" using that(1) by simp
      ultimately show "0 < x \<and> x < 1" using pos x by force
    qed
    ultimately show ?thesis by (rule prod_list_lt_one)
  qed
  show ?thesis using a p gt lt unfolding p fs_def [symmetric] by blast
qed

theorem parlay_prob_bounds_witness:
  "chosen_legs [leg_sure] bucket_two_pct = [leg_sure] \<and> side_prob leg_sure = 1 \<and>
   0 < parlay_prob (build_bucket (95/100) [leg_sure] bucket_two_pct) \<and>
   parlay_prob (build_bucket (95/100) [leg_sure] bucket_two_pct) < 1"
proof -
  have p: "pool [leg_sure] bucket_two_pct = [leg_sure]"
    by (simp add: pool_def sort_values_desc_def df_head_def min_edge_def edge_at_least_def
        example_rows example_buckets)
  have mx: "max_legs bucket_two_pct = 3" by (simp add: example_buckets)
  have c: "chosen_legs [leg_sure] bucket_two_pct = [leg_sure]"
    by (simp add: chosen_legs_def p df_head_def mx)
  have ne: "pool [leg_sure] bucket_two_pct \<noteq> []" by (simp add: p)
  have pen: "(0::real) < 95/100" by simp
  have s: "side_prob leg_sure = 1" by (simp add: example_rows)
  show ?thesis using parlay_prob_bounds [OF pen ne] c s by simp
qed

text \<open>
  With penalty 2 a single leg of probability 0.55 gives the combined probability
  1.1, and with \<open>max_legs = 0\<close> a bucket with a non-empty pool has no leg and the
  combined probability 1.
\<close>

theorem parlay_prob_bounds_counterexample:
  "chosen_legs [leg_a] bucket_two_pct = [leg_a] \<and>
   parlay_prob (build_bucket 2 [leg_a] bucket_two_pct) = 11/10 \<and>
   pool [leg_a] bucket_no_legs = [leg_a] \<and>
   chosen_legs [leg_a] bucket_no_legs = [] \<and>
   parlay_prob (build_bucket (95/100) [leg_a] bucket_no_legs) = 1"
proof -
  have p: "pool [leg_a] bucket_two_pct = [leg_a]" "pool [leg_a] bucket_no_legs = [leg_a]"
    by (simp_all add: pool_def sort_values_desc_def df_head_def min_edge_def edge_at_least_def
        example_rows example_buckets)
  have mx: "max_legs bucket_two_pct = 3" "max_legs bucket_no_legs = 0"
    by (simp_all add: example_buckets)
  have c: "chosen_legs [leg_a] bucket_two_pct = [leg_a]" "chosen_legs [leg_a] bucket_no_legs = []"
    by (simp_all add: chosen_legs_def p df_head_def mx)
  have a: "parlay_prob (build_bucket 2 [leg_a] bucket_two_pct) = 11/10"
    by (simp add: build_bucket_def p c Let_def) (simp add: clip_def example_rows)
  have b: "parlay_prob (build_bucket (95/100) [leg_a] bucket_no_legs) = 1"
    by (simp add: build_bucket_def p c Let_def)
  show ?thesis using p c a b by simp
qed

end
